theory Spec2Isabelle
  imports Complex_Main
begin

section \<open>Strings as the orchestrator uses them\<close>

text \<open>
  Python's \<^verbatim>\<open>str\<close> is modelled by \<^typ>\<open>string\<close>, restricted to code points below 256.
  \<^verbatim>\<open>str.strip()\<close> without argument removes the characters for which \<^verbatim>\<open>str.isspace\<close>
  holds from both ends; below 256 these are 9..13, 28..32, 133 and 160.
\<close>

definition isspace :: "char \<Rightarrow> bool" where
  "isspace c =
     (let n = (of_char c :: nat)
      in (9 \<le> n \<and> n \<le> 13) \<or> (28 \<le> n \<and> n \<le> 32) \<or> n = 133 \<or> n = 160)"

definition strip :: "string \<Rightarrow> string" where
  "strip s = rev (dropWhile isspace (rev (dropWhile isspace s)))"

text \<open>Decimal rendering of an integer, as an f-string renders \<^verbatim>\<open>{n}\<close>.\<close>

definition digit_char :: "nat \<Rightarrow> char" where
  "digit_char d = ''0123456789'' ! d"

function str_nat :: "nat \<Rightarrow> string" where
  "str_nat n = (if n < 10 then [digit_char n] else str_nat (n div 10) @ [digit_char (n mod 10)])"
  by pat_completeness auto
termination
  by (relation "measure (\<lambda>n. n)") auto

declare str_nat.simps [simp del]

definition str_int :: "int \<Rightarrow> string" where
  "str_int i = (if i < 0 then CHR ''-'' # str_nat (nat (- i)) else str_nat (nat i))"

section \<open>Exceptions\<close>

text \<open>
  A raised exception is a value: its class name, its \<^verbatim>\<open>str()\<close> and its
  \<^verbatim>\<open>__context__\<close>, which Python sets to the exception being handled when a new one
  is raised inside an \<^verbatim>\<open>except\<close> block. \<open>Exn\<close> is an instance of \<^verbatim>\<open>Exception\<close>;
  \<open>BaseExn\<close> is an instance of \<^verbatim>\<open>BaseException\<close> that is not one of \<^verbatim>\<open>Exception\<close>
  (\<^verbatim>\<open>asyncio.CancelledError\<close>, \<^verbatim>\<open>KeyboardInterrupt\<close>, \<^verbatim>\<open>SystemExit\<close>), which a clause
  \<^verbatim>\<open>except Exception\<close> does not catch.
\<close>

datatype exn =
    Exn (exn_class: string) (exn_str: string) (exn_context: "exn option")
  | BaseExn (exn_class: string) (exn_str: string) (exn_context: "exn option")


section \<open>Data model of \<^verbatim>\<open>multi_turn_with_agent.py\<close>\<close>

definition MAX_TURNS :: int where
  "MAX_TURNS = 20"

text \<open>\<^verbatim>\<open>timestamp\<close> is a float in the source; the orchestrator never supplies one.\<close>

record ConversationTurn =
  turn_number :: int
  sender :: string
  message :: string
  timestamp :: real

definition ConversationTurn_init :: "int \<Rightarrow> string \<Rightarrow> string \<Rightarrow> real option \<Rightarrow> ConversationTurn" where
  "ConversationTurn_init n s m ts =
     \<lparr>turn_number = n, sender = s, message = m,
      timestamp = (case ts of None \<Rightarrow> 0 | Some t \<Rightarrow> if t = 0 then 0 else t)\<rparr>"

text \<open>
  The fragments of the dialogue-platform stream. \<^verbatim>\<open>ActivityTypes\<close> belongs to an external
  library; only whether a fragment's type is \<^verbatim>\<open>ActivityTypes.message\<close> matters here.
\<close>

datatype ActivityTypes = Message | Other

record Activity =
  activity_type :: ActivityTypes
  activity_text :: "string option"

text \<open>
  \<^verbatim>\<open>ask_question\<close> is an asynchronous generator of the external client. One call, from
  the client's state and the question, yields a finite list of fragments (each possibly
  \<^verbatim>\<open>None\<close>), then either ends or raises; the client's state changes.
\<close>

type_synonym 'b ask_question = "'b \<Rightarrow> string \<Rightarrow> (Activity option list \<times> exn option) \<times> 'b"

text \<open>
  The completion-style endpoint as the orchestrator calls it:
  \<^verbatim>\<open>continue_conversation(other_agent_response, turn_number)\<close>, returning the next
  message or raising.
\<close>

type_synonym 'a continue_conversation_fn = "'a \<Rightarrow> string \<Rightarrow> int \<Rightarrow> (exn + string) \<times> 'a"

text \<open>
  The state of an \<^verbatim>\<open>AgentToAgentConversation\<close>. \<open>turns_log\<close> is not a field of the
  source: it records, in order, every value that \<^verbatim>\<open>self.turns\<close> has held since the
  beginning of the current \<^verbatim>\<open>start_conversation\<close> call, so that properties of
  intermediate states can be stated.
\<close>

record ('a, 'b) AgentToAgentConversation =
  azure_ai_client :: 'a
  copilot_client :: 'b
  turns :: "ConversationTurn list"
  current_turn :: int
  turns_log :: "ConversationTurn list list"

definition turns_append ::
  "ConversationTurn \<Rightarrow> ('a, 'b) AgentToAgentConversation \<Rightarrow> ('a, 'b) AgentToAgentConversation" where
  "turns_append t s = s\<lparr>turns := turns s @ [t], turns_log := turns_log s @ [turns s @ [t]]\<rparr>"

text \<open>
  A log is append-only when each value extends the one before by exactly one element:
  nothing recorded earlier is changed or removed.
\<close>

fun append_only :: "'a list list \<Rightarrow> bool" where
  "append_only [] = True"
| "append_only [x] = True"
| "append_only (x # y # rest) = (y \<noteq> [] \<and> butlast y = x \<and> append_only (y # rest))"

section \<open>The turn loop\<close>

text \<open>Lines 155-158: the concatenation of the texts of the message fragments.\<close>

fun collect_response :: "string \<Rightarrow> Activity option list \<Rightarrow> string" where
  "collect_response copilot_response [] = copilot_response"
| "collect_response copilot_response (activity # rest) =
     collect_response
       (case activity of
          None \<Rightarrow> copilot_response
        | Some a \<Rightarrow>
            if activity_type a = Message
            then copilot_response @ (case activity_text a of None \<Rightarrow> [] | Some t \<Rightarrow> t)
            else copilot_response)
       rest"

text \<open>
  Lines 151-162: the Copilot Studio turn. \<^verbatim>\<open>self.turns[-1]\<close> raises IndexError on an
  empty list. An exception of the stream leaves the method before anything is recorded.
  The result is \<^verbatim>\<open>copilot_response\<close>, unstripped, as the local variable holds it.
\<close>

definition copilot_turn ::
  "'b ask_question \<Rightarrow> ('a, 'b) AgentToAgentConversation
     \<Rightarrow> (exn + string) \<times> ('a, 'b) AgentToAgentConversation" where
  "copilot_turn ask s =
     (if turns s = [] then (Inl (Exn ''IndexError'' ''list index out of range'' None), s)
      else
        let current_message = message (last (turns s));
            (stream, b') = ask (copilot_client s) current_message;
            s1 = s\<lparr>copilot_client := b'\<rparr>
        in case snd stream of
             Some e \<Rightarrow> (Inl e, s1)
           | None \<Rightarrow>
               let copilot_response = collect_response [] (fst stream);
                   s2 = s1\<lparr>current_turn := current_turn s1 + 1\<rparr>;
                   s3 = turns_append
                          (ConversationTurn_init (current_turn s2) ''copilot_studio''
                             (strip copilot_response) None) s2
               in (Inr copilot_response, s3))"

text \<open>Lines 174-179: the Azure AI Agent turn.\<close>

definition azure_turn ::
  "'a continue_conversation_fn \<Rightarrow> string \<Rightarrow> ('a, 'b) AgentToAgentConversation
     \<Rightarrow> (exn + unit) \<times> ('a, 'b) AgentToAgentConversation" where
  "azure_turn cont copilot_response s =
     (let (r, a') = cont (azure_ai_client s) (strip copilot_response) (current_turn s);
          s1 = s\<lparr>azure_ai_client := a'\<rparr>
      in case r of
           Inl e \<Rightarrow> (Inl e, s1)
         | Inr next_message \<Rightarrow>
             let s2 = s1\<lparr>current_turn := current_turn s1 + 1\<rparr>;
                 s3 = turns_append
                        (ConversationTurn_init (current_turn s2) ''azure_ai_agent'' next_message None) s2
             in (Inr (), s3))"

lemma copilot_turn_current:
  "copilot_turn ask s = (Inr r, s') \<Longrightarrow> current_turn s' = current_turn s + 1"
  by (auto simp: copilot_turn_def turns_append_def Let_def
           split: if_splits prod.splits option.splits)

lemma azure_turn_current:
  "azure_turn cont r s = (Inr u, s') \<Longrightarrow> current_turn s' = current_turn s + 1"
  by (auto simp: azure_turn_def turns_append_def Let_def split: prod.splits sum.splits)

text \<open>
  Lines 149-182: the \<^verbatim>\<open>while\<close> loop. \<^verbatim>\<open>not copilot_response.strip()\<close> holds exactly
  when the stripped string is empty. The \<^verbatim>\<open>if\<close> of line 173 has no \<^verbatim>\<open>else\<close>: were
  its test false, control would return to the loop head.
\<close>

function conversation_loop ::
  "'a continue_conversation_fn \<Rightarrow> 'b ask_question \<Rightarrow> ('a, 'b) AgentToAgentConversation
     \<Rightarrow> (exn + unit) \<times> ('a, 'b) AgentToAgentConversation" where
  "conversation_loop cont ask s =
     (if current_turn s < MAX_TURNS then
        (case copilot_turn ask s of
           (Inl e, s1) \<Rightarrow> (Inl e, s1)
         | (Inr copilot_response, s1) \<Rightarrow>
             if current_turn s1 \<ge> MAX_TURNS \<or> strip copilot_response = [] then (Inr (), s1)
             else if current_turn s1 < MAX_TURNS then
               (case azure_turn cont copilot_response s1 of
                  (Inl e, s2) \<Rightarrow> (Inl e, s2)
                | (Inr u, s2) \<Rightarrow> conversation_loop cont ask s2)
             else conversation_loop cont ask s1)
      else (Inr (), s))"
  by pat_completeness auto
termination
proof (relation "measure (\<lambda>(cont, ask, s). nat (MAX_TURNS - current_turn s))")
qed (auto dest!: copilot_turn_current [OF sym] azure_turn_current [OF sym])

declare conversation_loop.simps [simp del]

text \<open>
  The states in which the test of the \<^verbatim>\<open>while\<close> (line 149) is evaluated, in order, when the
  loop is entered in \<open>s\<close>. The recursion is that of \<open>conversation_loop\<close>.
\<close>

function loop_heads ::
  "'a continue_conversation_fn \<Rightarrow> 'b ask_question \<Rightarrow> ('a, 'b) AgentToAgentConversation
     \<Rightarrow> ('a, 'b) AgentToAgentConversation list" where
  "loop_heads cont ask s =
     s #
     (if current_turn s < MAX_TURNS then
        (case copilot_turn ask s of
           (Inl e, s1) \<Rightarrow> []
         | (Inr copilot_response, s1) \<Rightarrow>
             if current_turn s1 \<ge> MAX_TURNS \<or> strip copilot_response = [] then []
             else if current_turn s1 < MAX_TURNS then
               (case azure_turn cont copilot_response s1 of
                  (Inl e, s2) \<Rightarrow> []
                | (Inr u, s2) \<Rightarrow> loop_heads cont ask s2)
             else loop_heads cont ask s1)
      else [])"
  by pat_completeness auto
termination
proof (relation "measure (\<lambda>(cont, ask, s). nat (MAX_TURNS - current_turn s))")
qed (auto dest!: copilot_turn_current [OF sym] azure_turn_current [OF sym])

declare loop_heads.simps [simp del]


text \<open>
  Lines 135-184: \<^verbatim>\<open>start_conversation\<close>. The result is the raised exception or the
  returned \<^verbatim>\<open>self.turns\<close>, together with the state the object is left in. The two
  \<^verbatim>\<open>asyncio.sleep\<close> calls only yield to the scheduler and are not modelled.
\<close>

definition start_conversation ::
  "'a continue_conversation_fn \<Rightarrow> 'b ask_question \<Rightarrow> string \<Rightarrow> ('a, 'b) AgentToAgentConversation
     \<Rightarrow> (exn + ConversationTurn list) \<times> ('a, 'b) AgentToAgentConversation" where
  "start_conversation cont ask initial_topic s =
     (let s1 = s\<lparr>turns := [], turns_log := [[]]\<rparr>;
          s2 = s1\<lparr>current_turn := 0\<rparr>;
          initial_message = initial_topic;
          s3 = s2\<lparr>current_turn := current_turn s2 + 1\<rparr>;
          s4 = turns_append
                 (ConversationTurn_init (current_turn s3) ''azure_ai_agent'' initial_message None) s3
      in case conversation_loop cont ask s4 of
           (Inl e, s') \<Rightarrow> (Inl e, s')
         | (Inr u, s') \<Rightarrow> (Inr (turns s'), s'))"


text \<open>
  For the statements about the stream: the texts of the fragments that are present, are of
  type message and carry a text, in order; and a string without leading or trailing
  whitespace.
\<close>

definition message_fragment_texts :: "Activity option list \<Rightarrow> string list" where
  "message_fragment_texts acts =
     List.map_filter
       (\<lambda>activity. case activity of
            None \<Rightarrow> None
          | Some a \<Rightarrow> if activity_type a = Message then activity_text a else None)
       acts"

definition no_outer_space :: "string \<Rightarrow> bool" where
  "no_outer_space m = (m = [] \<or> (\<not> isspace (hd m) \<and> \<not> isspace (last m)))"

section \<open>Transcript and summary views\<close>

text \<open>
  Lines 186-200: \<^verbatim>\<open>get_full_conversation_text\<close>. The loop appends one formatted line per
  turn to \<^verbatim>\<open>conversation_text\<close>. The method assigns no attribute of the object, so it is a
  function of the state and the state after the call is the state before it.
\<close>

fun render_turns :: "string \<Rightarrow> ConversationTurn list \<Rightarrow> string" where
  "render_turns conversation_text [] = conversation_text"
| "render_turns conversation_text (turn # rest) =
     (let sender_label = (if sender turn = ''azure_ai_agent'' then ''Azure AI Agent'' else ''Copilot Studio'')
      in render_turns
           (conversation_text @ ''Turn '' @ str_int (turn_number turn) @ '' - '' @ sender_label @ '': '' @
              message turn @ [CHR 0x0A, CHR 0x0A])
           rest)"

definition get_full_conversation_text :: "('a, 'b) AgentToAgentConversation \<Rightarrow> string" where
  "get_full_conversation_text s = render_turns [] (turns s)"

text \<open>
  Lines 202-218: \<^verbatim>\<open>get_conversation_summary\<close>. The returned dict has five fixed keys and
  is modelled as a record; the dicts of its \<^verbatim>\<open>"turns"\<close> entry have the keys
  \<^verbatim>\<open>turn\<close>, \<^verbatim>\<open>sender\<close> and \<^verbatim>\<open>message\<close>.
\<close>

record TurnSummary =
  turn :: int
  turn_sender :: string
  turn_message :: string

record ConversationSummary =
  total_turns :: int
  azure_ai_turns :: int
  copilot_studio_turns :: int
  conversation_length :: int
  turns_summary :: "TurnSummary list"

definition get_conversation_summary :: "('a, 'b) AgentToAgentConversation \<Rightarrow> ConversationSummary" where
  "get_conversation_summary s =
     \<lparr>total_turns = int (length (turns s)),
      azure_ai_turns = int (length (filter (\<lambda>t. sender t = ''azure_ai_agent'') (turns s))),
      copilot_studio_turns = int (length (filter (\<lambda>t. sender t = ''copilot_studio'') (turns s))),
      conversation_length = int (length (get_full_conversation_text s)),
      turns_summary =
        map (\<lambda>t. \<lparr>turn = turn_number t, turn_sender = sender t, turn_message = message t\<rparr>) (turns s)\<rparr>"

section \<open>The completion-style endpoint: \<^verbatim>\<open>azure_ai_agent_client.py\<close>\<close>

text \<open>
  \<^verbatim>\<open>conversation_history\<close> is a Python list of dicts, and \<^verbatim>\<open>get_conversation_history\<close>
  hands a copy of it to the caller, so lists and dicts are objects in a store and are named by
  their addresses. The store is a list of objects, an address is an index into it, and a new
  object goes to the end. A dict is the list of its items in insertion order.
\<close>

datatype pyval = PStr string | PInt int

datatype pyobj = ListObj "nat list" | DictObj "(string \<times> pyval) list"

type_synonym heap = "pyobj list"

text \<open>
  Reading through an address of the wrong kind, or one that is not allocated, gives an empty
  object; in a Python state no such address exists (see \<open>wf_client\<close> below).
\<close>

definition alloc :: "heap \<Rightarrow> pyobj \<Rightarrow> nat \<times> heap" where
  "alloc h ob = (length h, h @ [ob])"

definition list_of_ref :: "heap \<Rightarrow> nat \<Rightarrow> nat list" where
  "list_of_ref h r =
     (if r < length h then (case h ! r of ListObj xs \<Rightarrow> xs | DictObj kvs \<Rightarrow> []) else [])"

definition dict_of_ref :: "heap \<Rightarrow> nat \<Rightarrow> (string \<times> pyval) list" where
  "dict_of_ref h r =
     (if r < length h then (case h ! r of DictObj kvs \<Rightarrow> kvs | ListObj xs \<Rightarrow> []) else [])"

definition list_append :: "heap \<Rightarrow> nat \<Rightarrow> nat \<Rightarrow> heap" where
  "list_append h r x = h[r := ListObj (list_of_ref h r @ [x])]"


fun setitem :: "(string \<times> pyval) list \<Rightarrow> string \<Rightarrow> pyval \<Rightarrow> (string \<times> pyval) list" where
  "setitem [] k v = [(k, v)]"
| "setitem ((k', v') # d) k v = (if k' = k then (k, v) # d else (k', v') # setitem d k v)"



record 'w AzureAIAgentClient =
  client :: 'w
  model :: string
  system_prompt :: string
  conversation_history :: nat





text \<open>Lines 173-179: \<^verbatim>\<open>list.copy()\<close> makes a new list object with the same elements.\<close>

definition get_conversation_history :: "heap \<Rightarrow> 'w AzureAIAgentClient \<Rightarrow> nat \<times> heap" where
  "get_conversation_history h self = alloc h (ListObj (list_of_ref h (conversation_history self)))"

definition reset_conversation :: "heap \<Rightarrow> 'w AzureAIAgentClient \<Rightarrow> heap \<times> 'w AzureAIAgentClient" where
  "reset_conversation h self = (let (r, h') = alloc h (ListObj []) in (h', self\<lparr>conversation_history := r\<rparr>))"

text \<open>
  The internal history as a value: the dicts the history list refers to, in order. A
  well-formed client refers to a list object whose elements refer to dict objects.
\<close>

definition history_view :: "heap \<Rightarrow> 'w AzureAIAgentClient \<Rightarrow> (string \<times> pyval) list list" where
  "history_view h self = map (dict_of_ref h) (list_of_ref h (conversation_history self))"

definition wf_client :: "heap \<Rightarrow> 'w AzureAIAgentClient \<Rightarrow> bool" where
  "wf_client h self =
     (conversation_history self < length h \<and>
      (case h ! conversation_history self of
         ListObj xs \<Rightarrow> list_all (\<lambda>r. r < length h \<and> (case h ! r of DictObj kvs \<Rightarrow> True | ListObj ys \<Rightarrow> False)) xs
       | DictObj kvs \<Rightarrow> False))"


text \<open>What a caller can do to an entry it got hold of: \<^verbatim>\<open>entry[k] = v\<close>.\<close>

definition dict_setitem :: "heap \<Rightarrow> nat \<Rightarrow> string \<Rightarrow> pyval \<Rightarrow> heap" where
  "dict_setitem h r k v = h[r := DictObj (setitem (dict_of_ref h r) k v)]"

section \<open>The turn loop as the specification words it\<close>

text \<open>
  The specification gives the loop as pseudocode over turn records whose sender is one of
  two agents, with \<^verbatim>\<open>AgentB.respond_or_stream\<close> giving the response text and
  \<^verbatim>\<open>AgentA.respond\<close> the next text. The definitions of this section follow that
  pseudocode line by line; they are compared with the loop of the source below. Either call
  may fail, which ends the run with the error.
\<close>

datatype Agent = AgentA | AgentB

record TurnRecord =
  turnNumber :: int
  turnSender :: Agent
  turnMessage :: string
  turnTimestamp :: real

type_synonym 'b respond_or_stream_fn = "'b \<Rightarrow> string \<Rightarrow> (exn + string) \<times> 'b"

function spec_turn_loop ::
  "'a continue_conversation_fn \<Rightarrow> 'b respond_or_stream_fn \<Rightarrow> 'a \<times> 'b \<Rightarrow> TurnRecord list \<Rightarrow> int
     \<Rightarrow> (exn + TurnRecord list) \<times> ('a \<times> 'b)" where
  "spec_turn_loop respond respond_or_stream ab spec_turns current =
     (if current < MAX_TURNS then
        (case respond_or_stream (snd ab) (turnMessage (last spec_turns)) of
           (Inl e, b') \<Rightarrow> (Inl e, (fst ab, b'))
         | (Inr responseText, b') \<Rightarrow>
             if current + 1 \<ge> MAX_TURNS \<or> strip responseText = [] then
               (Inr (spec_turns @ [\<lparr>turnNumber = current + 1, turnSender = AgentB,
                               turnMessage = strip responseText, turnTimestamp = 0\<rparr>]),
                (fst ab, b'))
             else if current + 1 < MAX_TURNS then
               (case respond (fst ab) (strip responseText) (current + 1) of
                  (Inl e, a') \<Rightarrow> (Inl e, (a', b'))
                | (Inr nextText, a') \<Rightarrow>
                    spec_turn_loop respond respond_or_stream (a', b')
                      (spec_turns @ [\<lparr>turnNumber = current + 1, turnSender = AgentB,
                                 turnMessage = strip responseText, turnTimestamp = 0\<rparr>,
                               \<lparr>turnNumber = current + 1 + 1, turnSender = AgentA,
                                 turnMessage = nextText, turnTimestamp = 0\<rparr>])
                      (current + 1 + 1))
             else
               spec_turn_loop respond respond_or_stream (fst ab, b')
                 (spec_turns @ [\<lparr>turnNumber = current + 1, turnSender = AgentB,
                            turnMessage = strip responseText, turnTimestamp = 0\<rparr>])
                 (current + 1))
      else (Inr spec_turns, ab))"
  by pat_completeness auto
termination
  by (relation "measure (\<lambda>(respond, respond_or_stream, ab, spec_turns, current). nat (MAX_TURNS - current))") auto

declare spec_turn_loop.simps [simp del]

definition spec_start ::
  "'a continue_conversation_fn \<Rightarrow> 'b respond_or_stream_fn \<Rightarrow> string \<Rightarrow> 'a \<times> 'b
     \<Rightarrow> (exn + TurnRecord list) \<times> ('a \<times> 'b)" where
  "spec_start respond respond_or_stream topic ab =
     spec_turn_loop respond respond_or_stream ab
       [\<lparr>turnNumber = 1, turnSender = AgentA, turnMessage = topic, turnTimestamp = 0\<rparr>] 1"

text \<open>
  The response text of a stream is the concatenation of its message fragments; a turn record
  is read as a \<^verbatim>\<open>ConversationTurn\<close> with AgentA as \<^verbatim>\<open>azure_ai_agent\<close> and AgentB as
  \<^verbatim>\<open>copilot_studio\<close>.
\<close>

definition stream_text :: "'b ask_question \<Rightarrow> 'b respond_or_stream_fn" where
  "stream_text ask b q =
     (case ask b q of
        ((acts, Some e), b') \<Rightarrow> (Inl e, b')
      | ((acts, None), b') \<Rightarrow> (Inr (concat (message_fragment_texts acts)), b'))"

definition turn_of_record :: "TurnRecord \<Rightarrow> ConversationTurn" where
  "turn_of_record t =
     \<lparr>turn_number = turnNumber t,
      sender = (case turnSender t of AgentA \<Rightarrow> ''azure_ai_agent'' | AgentB \<Rightarrow> ''copilot_studio''),
      message = turnMessage t,
      timestamp = turnTimestamp t\<rparr>"


section \<open>Example endpoints\<close>

text \<open>Endpoints that answer \<^verbatim>\<open>"echo:" + input\<close>, one that answers nothing, one that raises.\<close>

definition echo_ask :: "unit ask_question" where
  "echo_ask b q = (([Some \<lparr>activity_type = Message, activity_text = Some (''echo:'' @ q)\<rparr>], None), b)"

definition echo_continue :: "unit continue_conversation_fn" where
  "echo_continue a m n = (Inr (''echo:'' @ m), a)"

definition silent_ask :: "unit ask_question" where
  "silent_ask b q = (([Some \<lparr>activity_type = Other, activity_text = Some ''...''\<rparr>, None], None), b)"

definition failing_ask :: "nat ask_question" where
  "failing_ask b q = (([], Some (Exn ''ConnectionError'' ''connection refused'' None)), Suc b)"

definition conv0 :: "'a \<Rightarrow> 'b \<Rightarrow> ('a, 'b) AgentToAgentConversation" where
  "conv0 a b = \<lparr>azure_ai_client = a, copilot_client = b, turns = [], current_turn = 0, turns_log = []\<rparr>"

definition silent_turns :: "ConversationTurn list" where
  "silent_turns =
     [\<lparr>turn_number = 1, sender = ''azure_ai_agent'', message = ''Hello'', timestamp = 0\<rparr>,
      \<lparr>turn_number = 2, sender = ''copilot_studio'', message = [], timestamp = 0\<rparr>]"

definition silent_final :: "(unit, unit) AgentToAgentConversation" where
  "silent_final =
     \<lparr>azure_ai_client = (), copilot_client = (), turns = silent_turns, current_turn = 2,
      turns_log = [[], [hd silent_turns], silent_turns]\<rparr>"

definition mixed_stream :: "Activity option list" where
  "mixed_stream =
     [None,
      Some \<lparr>activity_type = Other, activity_text = Some ''typing''\<rparr>,
      Some \<lparr>activity_type = Message, activity_text = None\<rparr>,
      Some \<lparr>activity_type = Message, activity_text = Some ''  Hi ''\<rparr>,
      Some \<lparr>activity_type = Message, activity_text = Some ''there  ''\<rparr>]"

definition mixed_ask :: "unit ask_question" where
  "mixed_ask b q = ((mixed_stream, None), b)"



definition client0 :: "unit AzureAIAgentClient" where
  "client0 = \<lparr>client = (), model = ''gpt-4o-mini'', system_prompt = ''You are a Simulator AI Agent'',
              conversation_history = 0\<rparr>"


definition heap1 :: heap where
  "heap1 = [ListObj [1], DictObj [(''role'', PStr ''user''), (''content'', PStr ''hi''), (''turn'', PInt 2)]]"

text \<open>Endpoints that are functions of their input: they keep no state and never raise.\<close>

definition function_ask :: "(string \<Rightarrow> string) \<Rightarrow> 'b ask_question" where
  "function_ask f b q = (([Some \<lparr>activity_type = Message, activity_text = Some (f q)\<rparr>], None), b)"

definition function_continue :: "(string \<Rightarrow> int \<Rightarrow> string) \<Rightarrow> 'a continue_conversation_fn" where
  "function_continue g a m n = (Inr (g m n), a)"

definition echo_records :: "TurnRecord list" where
  "echo_records =
     map (\<lambda>k. \<lparr>turnNumber = int k + 1, turnSender = (if even k then AgentA else AgentB),
                turnMessage = concat (replicate k ''echo:'') @ ''Hello'', turnTimestamp = 0\<rparr>)
       [0..<20]"

text \<open>A stream that answers \<^verbatim>\<open>B1\<close> to the first question and nothing afterwards.\<close>

definition late_silent_ask :: "nat ask_question" where
  "late_silent_ask b q =
     (if b = 0 then (([Some \<lparr>activity_type = Message, activity_text = Some ''B1''\<rparr>], None), Suc b)
      else (([], None), Suc b))"

definition late_silent_turns :: "ConversationTurn list" where
  "late_silent_turns =
     [\<lparr>turn_number = 1, sender = ''azure_ai_agent'', message = ''Hello'', timestamp = 0\<rparr>,
      \<lparr>turn_number = 2, sender = ''copilot_studio'', message = ''B1'', timestamp = 0\<rparr>,
      \<lparr>turn_number = 3, sender = ''azure_ai_agent'', message = ''echo:B1'', timestamp = 0\<rparr>]"

definition late_silent_head :: "(unit, nat) AgentToAgentConversation" where
  "late_silent_head =
     \<lparr>azure_ai_client = (), copilot_client = 1, turns = late_silent_turns, current_turn = 3,
      turns_log = [[], take 1 late_silent_turns, take 2 late_silent_turns, late_silent_turns]\<rparr>"

section \<open>Invariants of the turn loop\<close>

text \<open>
  A property that both turns preserve whenever the loop guard held before the Copilot
  Studio turn holds in the state the loop ends in, whether it returns or raises.
\<close>

lemma loop_preserves:
  assumes "P s"
    and "\<And>s r s'. P s \<Longrightarrow> current_turn s < MAX_TURNS \<Longrightarrow> copilot_turn ask s = (r, s') \<Longrightarrow> P s'"
    and "\<And>s c r s'. P s \<Longrightarrow> current_turn s < MAX_TURNS \<Longrightarrow> azure_turn cont c s = (r, s') \<Longrightarrow> P s'"
  shows "P (snd (conversation_loop cont ask s))"
  using assms
proof (induction cont ask s rule: conversation_loop.induct)
  case (1 cont ask s)
  note PB = "1.prems"(2) and PA = "1.prems"(3)
  show ?case
  proof (cases "current_turn s < MAX_TURNS")
    case False
    then show ?thesis using "1.prems"(1) by (simp add: conversation_loop.simps)
  next
    case True
    obtain rb s1 where B: "copilot_turn ask s = (rb, s1)" by (cases "copilot_turn ask s")
    have P1: "P s1" using PB [OF "1.prems"(1) True B] .
    show ?thesis
    proof (cases rb)
      case (Inl e)
      then show ?thesis using True B P1 by (simp add: conversation_loop.simps [of cont ask s])
    next
      case (Inr r)
      show ?thesis
      proof (cases "current_turn s1 \<ge> MAX_TURNS \<or> strip r = []")
        case True
        then show ?thesis using \<open>current_turn s < MAX_TURNS\<close> B P1 Inr
          by (simp add: conversation_loop.simps [of cont ask s])
      next
        case False
        then have lt: "current_turn s1 < MAX_TURNS" by simp
        obtain ra s2 where A: "azure_turn cont r s1 = (ra, s2)" by (cases "azure_turn cont r s1")
        have P2: "P s2" using PA [OF P1 lt A] .
        show ?thesis
        proof (cases ra)
          case (Inl e)
          then show ?thesis using True B Inr False lt A P2
            by (simp add: conversation_loop.simps [of cont ask s])
        next
          case (Inr u)
          have "P (snd (conversation_loop cont ask s2))"
          proof (rule "1.IH"(1) [OF True B [symmetric] \<open>rb = Inr r\<close> False lt A [symmetric] Inr P2])
            show "\<And>s r s'. P s \<Longrightarrow> current_turn s < MAX_TURNS \<Longrightarrow> copilot_turn ask s = (r, s') \<Longrightarrow> P s'"
              by (rule PB)
            show "\<And>s c r s'. P s \<Longrightarrow> current_turn s < MAX_TURNS \<Longrightarrow> azure_turn cont c s = (r, s') \<Longrightarrow> P s'"
              by (rule PA)
          qed
          then show ?thesis using True B \<open>rb = Inr r\<close> False lt A Inr
            by (simp add: conversation_loop.simps [of cont ask s])
        qed
      qed
    qed
  qed
qed


definition count_inv :: "('a, 'b) AgentToAgentConversation \<Rightarrow> bool" where
  "count_inv s = (current_turn s = int (length (turns s)))"

definition bound_inv :: "('a, 'b) AgentToAgentConversation \<Rightarrow> bool" where
  "bound_inv s =
     (count_inv s \<and> current_turn s \<le> MAX_TURNS \<and>
      list_all (\<lambda>ts. int (length ts) \<le> MAX_TURNS) (turns_log s))"

lemma copilot_turn_cases:
  assumes "copilot_turn ask s = (r, s')"
  obtains (index) "turns s = []" "r = Inl (Exn ''IndexError'' ''list index out of range'' None)" "s' = s"
  | (raised) e where "turns s \<noteq> []" "r = Inl e"
      "snd (fst (ask (copilot_client s) (message (last (turns s))))) = Some e"
      "s' = s\<lparr>copilot_client := snd (ask (copilot_client s) (message (last (turns s))))\<rparr>"
  | (recorded) "turns s \<noteq> []"
      "snd (fst (ask (copilot_client s) (message (last (turns s))))) = None"
      "r = Inr (collect_response [] (fst (fst (ask (copilot_client s) (message (last (turns s)))))))"
      "s' = turns_append
              (ConversationTurn_init (current_turn s + 1) ''copilot_studio''
                 (strip (collect_response [] (fst (fst (ask (copilot_client s) (message (last (turns s)))))))) None)
              (s\<lparr>copilot_client := snd (ask (copilot_client s) (message (last (turns s)))),
                  current_turn := current_turn s + 1\<rparr>)"
  using assms
  by (auto simp: copilot_turn_def Let_def split: if_splits prod.splits option.splits)

lemma azure_turn_cases:
  assumes "azure_turn cont c s = (r, s')"
  obtains (raised) e where "r = Inl e"
      "fst (cont (azure_ai_client s) (strip c) (current_turn s)) = Inl e"
      "s' = s\<lparr>azure_ai_client := snd (cont (azure_ai_client s) (strip c) (current_turn s))\<rparr>"
  | (recorded) m where "r = Inr ()"
      "fst (cont (azure_ai_client s) (strip c) (current_turn s)) = Inr m"
      "s' = turns_append (ConversationTurn_init (current_turn s + 1) ''azure_ai_agent'' m None)
              (s\<lparr>azure_ai_client := snd (cont (azure_ai_client s) (strip c) (current_turn s)),
                  current_turn := current_turn s + 1\<rparr>)"
  using assms
  by (auto simp: azure_turn_def Let_def split: prod.splits sum.splits)

lemma bound_inv_copilot:
  assumes "bound_inv s" "current_turn s < MAX_TURNS" "copilot_turn ask s = (r, s')"
  shows "bound_inv s'"
  using assms(3)
proof (cases rule: copilot_turn_cases)
  case index
  then show ?thesis using assms(1) by simp
next
  case (raised e)
  then show ?thesis using assms(1) by (simp add: bound_inv_def count_inv_def)
next
  case recorded
  then show ?thesis using assms(1,2)
    by (simp add: bound_inv_def count_inv_def turns_append_def)
qed

lemma bound_inv_azure:
  assumes "bound_inv s" "current_turn s < MAX_TURNS" "azure_turn cont c s = (r, s')"
  shows "bound_inv s'"
  using assms(3)
proof (cases rule: azure_turn_cases)
  case (raised e)
  then show ?thesis using assms(1) by (simp add: bound_inv_def count_inv_def)
next
  case (recorded m)
  then show ?thesis using assms(1,2)
    by (simp add: bound_inv_def count_inv_def turns_append_def)
qed

definition seed_state :: "string \<Rightarrow> ('a, 'b) AgentToAgentConversation \<Rightarrow> ('a, 'b) AgentToAgentConversation" where
  "seed_state topic s =
     turns_append (ConversationTurn_init 1 ''azure_ai_agent'' topic None)
       (s\<lparr>turns := [], turns_log := [[]], current_turn := 1\<rparr>)"

lemma start_conversation_seed:
  "start_conversation cont ask topic s =
     (case conversation_loop cont ask (seed_state topic s) of
        (Inl e, s') \<Rightarrow> (Inl e, s')
      | (Inr u, s') \<Rightarrow> (Inr (turns s'), s'))"
  by (simp add: start_conversation_def seed_state_def Let_def)

lemma start_conversation_state:
  "snd (start_conversation cont ask topic s) = snd (conversation_loop cont ask (seed_state topic s))"
  by (cases "conversation_loop cont ask (seed_state topic s)")
     (simp add: start_conversation_seed split: sum.splits)

lemma seed_state_simps:
  "turns (seed_state topic s) = [ConversationTurn_init 1 ''azure_ai_agent'' topic None]"
  "current_turn (seed_state topic s) = 1"
  "turns_log (seed_state topic s) = [[], [ConversationTurn_init 1 ''azure_ai_agent'' topic None]]"
  "azure_ai_client (seed_state topic s) = azure_ai_client s"
  "copilot_client (seed_state topic s) = copilot_client s"
  by (simp_all add: seed_state_def turns_append_def)

text \<open>
  C1. During every execution of \<^verbatim>\<open>start_conversation\<close>, whatever the two endpoints
  return or raise, every value that \<^verbatim>\<open>self.turns\<close> holds has at most \<^verbatim>\<open>MAX_TURNS\<close>
  = 20 elements; so has the value it is left with.
\<close>

theorem turns_never_exceed_MAX_TURNS:
  "list_all (\<lambda>ts. int (length ts) \<le> MAX_TURNS)
     (turns_log (snd (start_conversation cont ask initial_topic s))) \<and>
   int (length (turns (snd (start_conversation cont ask initial_topic s)))) \<le> MAX_TURNS \<and>
   MAX_TURNS = 20"
proof -
  have "bound_inv (seed_state initial_topic s)"
    by (simp add: bound_inv_def count_inv_def MAX_TURNS_def seed_state_simps)
  then have "bound_inv (snd (conversation_loop cont ask (seed_state initial_topic s)))"
    by (rule loop_preserves) (erule (2) bound_inv_copilot, erule (2) bound_inv_azure)
  then show ?thesis
    by (simp add: start_conversation_state bound_inv_def count_inv_def MAX_TURNS_def)
qed

lemma append_only_snoc:
  "xs \<noteq> [] \<Longrightarrow> append_only (xs @ [y]) = (append_only xs \<and> y \<noteq> [] \<and> butlast y = last xs)"
  by (induction xs rule: append_only.induct) auto

definition order_inv :: "('a, 'b) AgentToAgentConversation \<Rightarrow> bool" where
  "order_inv s =
     (count_inv s \<and>
      (\<forall>i<length (turns s). turn_number (turns s ! i) = int i + 1) \<and>
      turns_log s \<noteq> [] \<and> hd (turns_log s) = [] \<and> last (turns_log s) = turns s \<and>
      append_only (turns_log s))"

lemma order_inv_append:
  assumes "order_inv s" "turns s' = turns s" "turns_log s' = turns_log s"
    "current_turn s' = current_turn s + 1"
  shows "order_inv (turns_append (ConversationTurn_init (current_turn s + 1) who m None) s')"
  using assms
  by (auto simp: order_inv_def count_inv_def turns_append_def append_only_snoc nth_append
        ConversationTurn_init_def less_Suc_eq)

lemma order_inv_copilot:
  assumes "order_inv s" "current_turn s < MAX_TURNS" "copilot_turn ask s = (r, s')"
  shows "order_inv s'"
  using assms(3)
proof (cases rule: copilot_turn_cases)
  case index
  then show ?thesis using assms(1) by simp
next
  case (raised e)
  then show ?thesis using assms(1) by (simp add: order_inv_def count_inv_def)
next
  case recorded
  show ?thesis
    unfolding recorded(4) by (rule order_inv_append [OF assms(1)]) simp_all
qed

lemma order_inv_azure:
  assumes "order_inv s" "current_turn s < MAX_TURNS" "azure_turn cont c s = (r, s')"
  shows "order_inv s'"
  using assms(3)
proof (cases rule: azure_turn_cases)
  case (raised e)
  then show ?thesis using assms(1) by (simp add: order_inv_def count_inv_def)
next
  case (recorded m)
  show ?thesis
    unfolding recorded(3) by (rule order_inv_append [OF assms(1)]) simp_all
qed

lemma start_conversation_returns:
  "start_conversation cont ask topic s = (Inr ts, s') \<Longrightarrow> ts = turns s'"
  by (auto simp: start_conversation_seed split: prod.splits sum.splits)

text \<open>
  C2. In every list that \<^verbatim>\<open>start_conversation\<close> returns, the record at index \<open>i\<close> has
  turn number \<open>i + 1\<close>; and the values \<^verbatim>\<open>self.turns\<close> held during the call start at the
  empty list, end at the returned list, and each extends the one before by one appended record.
\<close>

theorem turn_numbers_contiguous_append_only:
  assumes "start_conversation cont ask initial_topic s = (Inr ts, s')"
  shows "(\<forall>i<length ts. turn_number (ts ! i) = int i + 1) \<and>
         hd (turns_log s') = [] \<and> last (turns_log s') = ts \<and> append_only (turns_log s')"
proof -
  have "order_inv (seed_state initial_topic s)"
    by (simp add: order_inv_def count_inv_def seed_state_simps ConversationTurn_init_def)
  then have "order_inv (snd (conversation_loop cont ask (seed_state initial_topic s)))"
    by (rule loop_preserves) (erule (2) order_inv_copilot, erule (2) order_inv_azure)
  then have "order_inv s'"
    using assms start_conversation_state [of cont ask initial_topic s] by simp
  then show ?thesis
    using start_conversation_returns [OF assms] by (simp add: order_inv_def)
qed

lemma silent_run:
  "start_conversation echo_continue silent_ask ''Hello'' (conv0 () ()) = (Inr silent_turns, silent_final)"
  by (simp add: start_conversation_def conversation_loop.simps copilot_turn_def azure_turn_def
        turns_append_def ConversationTurn_init_def silent_ask_def echo_continue_def conv0_def
        MAX_TURNS_def strip_def isspace_def Let_def silent_turns_def silent_final_def)

theorem turn_numbers_contiguous_append_only_witness:
  "start_conversation echo_continue silent_ask ''Hello'' (conv0 () ()) = (Inr silent_turns, silent_final) \<and>
   length silent_turns = 2 \<and>
   turn_number (silent_turns ! 0) = 1 \<and> turn_number (silent_turns ! 1) = 2 \<and>
   last (turns_log silent_final) = silent_turns \<and> append_only (turns_log silent_final)"
  using turn_numbers_contiguous_append_only [OF silent_run] silent_run
  by (simp add: silent_turns_def)

text \<open>
  The same for a postcondition: \<open>I\<close> holds at the loop head, \<open>J\<close> between the two turns,
  \<open>Q\<close> of the outcome and the state wherever the loop is left.
\<close>

lemma loop_rule:
  assumes "I s"
    and "\<And>s r s'. I s \<Longrightarrow> current_turn s < MAX_TURNS \<Longrightarrow> copilot_turn ask s = (r, s') \<Longrightarrow>
           (case r of Inl e \<Rightarrow> Q (Inl e) s'
            | Inr c \<Rightarrow> if current_turn s' \<ge> MAX_TURNS \<or> strip c = [] then Q (Inr ()) s' else J c s')"
    and "\<And>s c r s'. J c s \<Longrightarrow> current_turn s < MAX_TURNS \<Longrightarrow> azure_turn cont c s = (r, s') \<Longrightarrow>
           (case r of Inl e \<Rightarrow> Q (Inl e) s' | Inr u \<Rightarrow> I s')"
    and "\<And>s. I s \<Longrightarrow> \<not> current_turn s < MAX_TURNS \<Longrightarrow> Q (Inr ()) s"
  shows "Q (fst (conversation_loop cont ask s)) (snd (conversation_loop cont ask s))"
  using assms
proof (induction cont ask s rule: conversation_loop.induct)
  case (1 cont ask s)
  note PB = "1.prems"(2) and PA = "1.prems"(3) and PE = "1.prems"(4)
  show ?case
  proof (cases "current_turn s < MAX_TURNS")
    case False
    then show ?thesis using PE [OF "1.prems"(1)] by (simp add: conversation_loop.simps)
  next
    case True
    obtain rb s1 where B: "copilot_turn ask s = (rb, s1)" by (cases "copilot_turn ask s")
    note P1 = PB [OF "1.prems"(1) True B]
    show ?thesis
    proof (cases rb)
      case (Inl e)
      then show ?thesis using True B P1 by (simp add: conversation_loop.simps [of cont ask s])
    next
      case (Inr r)
      show ?thesis
      proof (cases "current_turn s1 \<ge> MAX_TURNS \<or> strip r = []")
        case True
        then show ?thesis using \<open>current_turn s < MAX_TURNS\<close> B P1 Inr
          by (simp add: conversation_loop.simps [of cont ask s])
      next
        case False
        then have lt: "current_turn s1 < MAX_TURNS" by simp
        have J1: "J r s1" using P1 Inr False by simp
        obtain ra s2 where A: "azure_turn cont r s1 = (ra, s2)" by (cases "azure_turn cont r s1")
        note P2 = PA [OF J1 lt A]
        show ?thesis
        proof (cases ra)
          case (Inl e)
          then show ?thesis using True B Inr False lt A P2
            by (simp add: conversation_loop.simps [of cont ask s])
        next
          case (Inr u)
          then have I2: "I s2" using P2 by simp
          have "Q (fst (conversation_loop cont ask s2)) (snd (conversation_loop cont ask s2))"
          proof (rule "1.IH"(1) [OF True B [symmetric] \<open>rb = Inr r\<close> False lt A [symmetric] Inr I2])
            show "\<And>s r s'. I s \<Longrightarrow> current_turn s < MAX_TURNS \<Longrightarrow> copilot_turn ask s = (r, s') \<Longrightarrow>
                 (case r of Inl e \<Rightarrow> Q (Inl e) s'
                  | Inr c \<Rightarrow> if current_turn s' \<ge> MAX_TURNS \<or> strip c = [] then Q (Inr ()) s' else J c s')"
              by (rule PB)
            show "\<And>s c r s'. J c s \<Longrightarrow> current_turn s < MAX_TURNS \<Longrightarrow> azure_turn cont c s = (r, s') \<Longrightarrow>
                 (case r of Inl e \<Rightarrow> Q (Inl e) s' | Inr u \<Rightarrow> I s')"
              by (rule PA)
            show "\<And>s. I s \<Longrightarrow> \<not> current_turn s < MAX_TURNS \<Longrightarrow> Q (Inr ()) s"
              by (rule PE)
          qed
          then show ?thesis using True B \<open>rb = Inr r\<close> False lt A Inr
            by (simp add: conversation_loop.simps [of cont ask s])
        qed
      qed
    qed
  qed
qed

definition no_empty_copilot :: "ConversationTurn list \<Rightarrow> bool" where
  "no_empty_copilot ts = list_all (\<lambda>t. \<not> (sender t = ''copilot_studio'' \<and> message t = [])) ts"

definition empty_copilot_last :: "(exn + unit) \<Rightarrow> ConversationTurn list \<Rightarrow> bool" where
  "empty_copilot_last r ts =
     (\<forall>i<length ts. sender (ts ! i) = ''copilot_studio'' \<and> message (ts ! i) = [] \<longrightarrow>
        Suc i = length ts \<and> r = Inr ())"

lemma no_empty_copilot_last: "no_empty_copilot ts \<Longrightarrow> empty_copilot_last r ts"
  by (auto simp: no_empty_copilot_def empty_copilot_last_def list_all_length)

lemma no_empty_copilot_snoc:
  "no_empty_copilot ts \<Longrightarrow> empty_copilot_last (Inr ()) (ts @ [t])"
  by (auto simp: no_empty_copilot_def empty_copilot_last_def list_all_length nth_append less_Suc_eq)

lemma loop_empty_copilot_last:
  assumes "no_empty_copilot (turns s)"
  shows "empty_copilot_last (fst (conversation_loop cont ask s)) (turns (snd (conversation_loop cont ask s)))"
proof (rule loop_rule [where I = "\<lambda>s. no_empty_copilot (turns s)" and J = "\<lambda>c s. no_empty_copilot (turns s)"
        and Q = "\<lambda>r s. empty_copilot_last r (turns s)"])
  show "no_empty_copilot (turns s)" by (rule assms)
next
  fix s :: "('a, 'b) AgentToAgentConversation" and r s'
  assume I: "no_empty_copilot (turns s)" and B: "copilot_turn ask s = (r, s')"
  from B show "case r of Inl e \<Rightarrow> empty_copilot_last (Inl e) (turns s')
      | Inr c \<Rightarrow> if MAX_TURNS \<le> current_turn s' \<or> strip c = [] then empty_copilot_last (Inr ()) (turns s')
                 else no_empty_copilot (turns s')"
  proof (cases rule: copilot_turn_cases)
    case index
    then show ?thesis by (simp add: empty_copilot_last_def)
  next
    case (raised e)
    then show ?thesis using no_empty_copilot_last [OF I] by simp
  next
    case recorded
    then show ?thesis using I no_empty_copilot_snoc [OF I]
      by (simp add: turns_append_def no_empty_copilot_def ConversationTurn_init_def)
  qed
next
  fix s :: "('a, 'b) AgentToAgentConversation" and c r s'
  assume I: "no_empty_copilot (turns s)" and A: "azure_turn cont c s = (r, s')"
  from A show "case r of Inl e \<Rightarrow> empty_copilot_last (Inl e) (turns s') | Inr u \<Rightarrow> no_empty_copilot (turns s')"
  proof (cases rule: azure_turn_cases)
    case (raised e)
    then show ?thesis using no_empty_copilot_last [OF I] by simp
  next
    case (recorded m)
    then show ?thesis using I
      by (simp add: turns_append_def no_empty_copilot_def ConversationTurn_init_def)
  qed
next
  fix s :: "('a, 'b) AgentToAgentConversation"
  assume "no_empty_copilot (turns s)"
  then show "empty_copilot_last (Inr ()) (turns s)" by (rule no_empty_copilot_last)
qed


lemma seed_no_empty_copilot: "no_empty_copilot (turns (seed_state topic s))"
  by (simp add: seed_state_simps no_empty_copilot_def ConversationTurn_init_def)

lemma start_conversation_fst:
  "fst (start_conversation cont ask topic s) = Inr ts \<Longrightarrow>
     fst (conversation_loop cont ask (seed_state topic s)) = Inr ()"
  by (cases "conversation_loop cont ask (seed_state topic s)")
     (auto simp: start_conversation_seed split: sum.splits)

lemma start_conversation_Inr:
  "fst (conversation_loop cont ask (seed_state topic s)) = Inr () \<Longrightarrow>
     fst (start_conversation cont ask topic s) = Inr (turns (snd (start_conversation cont ask topic s)))"
  by (cases "conversation_loop cont ask (seed_state topic s)")
     (auto simp: start_conversation_seed split: sum.splits)

lemma one_less_MAX_TURNS: "1 < MAX_TURNS"
  by (simp add: MAX_TURNS_def)

lemma first_copilot_turn:
  "copilot_turn ask (seed_state topic s) =
     (case snd (fst (ask (copilot_client s) topic)) of
        Some e \<Rightarrow> (Inl e, (seed_state topic s)\<lparr>copilot_client := snd (ask (copilot_client s) topic)\<rparr>)
      | None \<Rightarrow>
          (Inr (collect_response [] (fst (fst (ask (copilot_client s) topic)))),
           turns_append
             (ConversationTurn_init 2 ''copilot_studio''
                (strip (collect_response [] (fst (fst (ask (copilot_client s) topic))))) None)
             ((seed_state topic s)\<lparr>copilot_client := snd (ask (copilot_client s) topic),
                 current_turn := 2\<rparr>)))"
  by (simp add: copilot_turn_def seed_state_simps ConversationTurn_init_def Let_def
           split: prod.splits option.splits)

lemma azure_turn_turns: "azure_turn cont c s = (Inr u, s') \<Longrightarrow> turns s' \<noteq> []"
  by (erule azure_turn_cases) (simp_all add: turns_append_def)

lemma loop_heads_same_result:
  assumes "h \<in> set (loop_heads cont ask s)" "odd (current_turn s)" "current_turn s < MAX_TURNS"
    "turns s \<noteq> []"
  shows "conversation_loop cont ask h = conversation_loop cont ask s \<and>
         odd (current_turn h) \<and> current_turn h < MAX_TURNS \<and> turns h \<noteq> []"
  using assms
proof (induction cont ask s rule: loop_heads.induct)
  case (1 cont ask s)
  show ?case
  proof (cases "h = s")
    case True
    then show ?thesis using "1.prems" by simp
  next
    case False
    note lt = \<open>current_turn s < MAX_TURNS\<close>
    obtain rb s1 where B: "copilot_turn ask s = (rb, s1)" by (cases "copilot_turn ask s")
    from False "1.prems"(1) lt B obtain c where rb: "rb = Inr c"
      by (cases rb) (simp_all add: loop_heads.simps [of cont ask s])
    from False "1.prems"(1) lt B rb have go: "\<not> (MAX_TURNS \<le> current_turn s1 \<or> strip c = [])"
      by (auto simp: loop_heads.simps [of cont ask s])
    then have lt1: "current_turn s1 < MAX_TURNS" by simp
    obtain ra s2 where A: "azure_turn cont c s1 = (ra, s2)" by (cases "azure_turn cont c s1")
    from False "1.prems"(1) lt B rb go lt1 A obtain u where ra: "ra = Inr u"
      by (cases ra) (simp_all add: loop_heads.simps [of cont ask s])
    from False "1.prems"(1) lt B rb go lt1 A ra have h2: "h \<in> set (loop_heads cont ask s2)"
      by (simp add: loop_heads.simps [of cont ask s])
    have c1: "current_turn s1 = current_turn s + 1"
      using copilot_turn_current B rb by blast
    have c2: "current_turn s2 = current_turn s1 + 1"
      using azure_turn_current A ra by blast
    have odd2: "odd (current_turn s2)" using "1.prems"(2) c1 c2 by simp
    have lt2: "current_turn s2 < MAX_TURNS"
      using "1.prems"(2) lt1 c1 c2 by (auto simp: MAX_TURNS_def elim!: oddE)
    have ne2: "turns s2 \<noteq> []" using azure_turn_turns A ra by blast
    have "conversation_loop cont ask h = conversation_loop cont ask s2 \<and>
         odd (current_turn h) \<and> current_turn h < MAX_TURNS \<and> turns h \<noteq> []"
      by (rule "1.IH"(1) [OF lt B [symmetric] rb go lt1 A [symmetric] ra h2 odd2 lt2 ne2])
    moreover have "conversation_loop cont ask s = conversation_loop cont ask s2"
      using lt B rb go lt1 A ra by (simp add: conversation_loop.simps [of cont ask s])
    ultimately show ?thesis by simp
  qed
qed

lemma empty_reply_returns:
  assumes "turns s \<noteq> []" "current_turn s < MAX_TURNS"
    and "snd (fst (ask (copilot_client s) (message (last (turns s))))) = None"
    and "strip (collect_response [] (fst (fst (ask (copilot_client s) (message (last (turns s))))))) = []"
  shows "conversation_loop cont ask s =
           (Inr (),
            turns_append (ConversationTurn_init (current_turn s + 1) ''copilot_studio'' [] None)
              (s\<lparr>copilot_client := snd (ask (copilot_client s) (message (last (turns s)))),
                  current_turn := current_turn s + 1\<rparr>))"
proof -
  obtain r s1 where B: "copilot_turn ask s = (r, s1)" by (cases "copilot_turn ask s")
  from B show ?thesis
  proof (cases rule: copilot_turn_cases)
    case index
    then show ?thesis using assms(1) by simp
  next
    case (raised e)
    then show ?thesis using assms(3) by simp
  next
    case recorded
    then show ?thesis using assms(2,4) B
      by (simp add: conversation_loop.simps [of cont ask s])
  qed
qed


lemma seed_head_facts:
  "odd (current_turn (seed_state topic init))" "current_turn (seed_state topic init) < MAX_TURNS"
  "turns (seed_state topic init) \<noteq> []"
  by (simp_all add: seed_state_simps MAX_TURNS_def)

lemma empty_reply_ends_run:
  assumes "h \<in> set (loop_heads cont ask (seed_state topic init))"
    and "snd (fst (ask (copilot_client h) (message (last (turns h))))) = None"
    and "strip (collect_response [] (fst (fst (ask (copilot_client h) (message (last (turns h))))))) = []"
  shows "fst (start_conversation cont ask topic init) =
           Inr (turns h @ [\<lparr>turn_number = current_turn h + 1, sender = ''copilot_studio'',
                             message = [], timestamp = 0\<rparr>])"
    and "azure_ai_client (snd (start_conversation cont ask topic init)) = azure_ai_client h"
    and "copilot_client (snd (start_conversation cont ask topic init)) =
           snd (ask (copilot_client h) (message (last (turns h))))"
proof -
  have same: "conversation_loop cont ask h = conversation_loop cont ask (seed_state topic init)"
    and lt: "current_turn h < MAX_TURNS" and ne: "turns h \<noteq> []"
    using loop_heads_same_result [OF assms(1) seed_head_facts] by simp_all
  note run = empty_reply_returns [where s = h and ask = ask and cont = cont,
      OF ne lt assms(2,3), unfolded same]
  show "fst (start_conversation cont ask topic init) =
           Inr (turns h @ [\<lparr>turn_number = current_turn h + 1, sender = ''copilot_studio'',
                             message = [], timestamp = 0\<rparr>])"
    by (simp add: start_conversation_seed run turns_append_def ConversationTurn_init_def)
  show "azure_ai_client (snd (start_conversation cont ask topic init)) = azure_ai_client h"
    by (simp add: start_conversation_seed run turns_append_def)
  show "copilot_client (snd (start_conversation cont ask topic init)) =
           snd (ask (copilot_client h) (message (last (turns h))))"
    by (simp add: start_conversation_seed run turns_append_def)
qed

lemma empty_copilot_turn_is_last:
  assumes "i < length (turns (snd (start_conversation cont ask topic init)))"
    and "sender (turns (snd (start_conversation cont ask topic init)) ! i) = ''copilot_studio'' \<and>
         message (turns (snd (start_conversation cont ask topic init)) ! i) = []"
  shows "Suc i = length (turns (snd (start_conversation cont ask topic init))) \<and>
         fst (start_conversation cont ask topic init) =
           Inr (turns (snd (start_conversation cont ask topic init)))"
proof -
  let ?s' = "snd (start_conversation cont ask topic init)"
  have "empty_copilot_last (fst (conversation_loop cont ask (seed_state topic init))) (turns ?s')"
    using loop_empty_copilot_last [OF seed_no_empty_copilot, of cont ask topic init]
    by (simp add: start_conversation_state)
  with assms have *: "Suc i = length (turns ?s')"
      "fst (conversation_loop cont ask (seed_state topic init)) = Inr ()"
    by (auto simp: empty_copilot_last_def)
  show ?thesis using *(1) start_conversation_Inr [OF *(2)] by simp
qed

lemma first_empty_reply:
  assumes "snd (fst (ask (copilot_client init) topic)) = None \<and>
    strip (collect_response [] (fst (fst (ask (copilot_client init) topic)))) = []"
  shows "fst (start_conversation cont ask topic init) =
      Inr [\<lparr>turn_number = 1, sender = ''azure_ai_agent'', message = topic, timestamp = 0\<rparr>,
           \<lparr>turn_number = 2, sender = ''copilot_studio'', message = [], timestamp = 0\<rparr>]"
  using assms one_less_MAX_TURNS
  by (simp add: start_conversation_seed conversation_loop.simps [of cont ask "seed_state topic init"]
        first_copilot_turn seed_state_simps turns_append_def ConversationTurn_init_def)

text \<open>
  C4. Whenever the loop is at its head in a state in which Copilot Studio is asked (the
  counter is below \<^verbatim>\<open>MAX_TURNS\<close>) and the stream ends without raising with a text that is
  empty after stripping, the loop returns at once: that turn is recorded, with sender
  \<^verbatim>\<open>copilot_studio\<close> and message \<^verbatim>\<open>""\<close>, and is the final turn, and the Azure client is not
  called. This holds of every state, and so of every state in which
  \<^verbatim>\<open>start_conversation\<close> evaluates the loop test: there the call returns the turns so far
  followed by the empty turn. Also, in the state \<^verbatim>\<open>start_conversation\<close> ends in, a
  \<^verbatim>\<open>copilot_studio\<close> turn with an empty message is the last turn and the call has returned.
  In particular, when the first stream ends without raising and its stripped text is empty,
  the call returns exactly the seed turn and the empty Copilot Studio turn (with
  \<^verbatim>\<open>MAX_TURNS\<close> = 20).
\<close>

theorem empty_copilot_message_ends_conversation:
  "(turns s \<noteq> [] \<and> current_turn s < MAX_TURNS \<and>
    snd (fst (ask (copilot_client s) (message (last (turns s))))) = None \<and>
    strip (collect_response [] (fst (fst (ask (copilot_client s) (message (last (turns s))))))) = [] \<longrightarrow>
    fst (conversation_loop cont ask s) = Inr () \<and>
    turns (snd (conversation_loop cont ask s)) =
      turns s @ [\<lparr>turn_number = current_turn s + 1, sender = ''copilot_studio'',
                   message = [], timestamp = 0\<rparr>] \<and>
    current_turn (snd (conversation_loop cont ask s)) = current_turn s + 1 \<and>
    azure_ai_client (snd (conversation_loop cont ask s)) = azure_ai_client s \<and>
    copilot_client (snd (conversation_loop cont ask s)) =
      snd (ask (copilot_client s) (message (last (turns s))))) \<and>
   (\<forall>h\<in>set (loop_heads cont ask (seed_state topic init)).
      turns h \<noteq> [] \<and> current_turn h < MAX_TURNS \<and>
      (snd (fst (ask (copilot_client h) (message (last (turns h))))) = None \<and>
       strip (collect_response [] (fst (fst (ask (copilot_client h) (message (last (turns h))))))) = [] \<longrightarrow>
       fst (start_conversation cont ask topic init) =
         Inr (turns h @ [\<lparr>turn_number = current_turn h + 1, sender = ''copilot_studio'',
                           message = [], timestamp = 0\<rparr>]) \<and>
       azure_ai_client (snd (start_conversation cont ask topic init)) = azure_ai_client h \<and>
       copilot_client (snd (start_conversation cont ask topic init)) =
         snd (ask (copilot_client h) (message (last (turns h)))))) \<and>
   (\<forall>i<length (turns (snd (start_conversation cont ask topic init))).
       sender (turns (snd (start_conversation cont ask topic init)) ! i) = ''copilot_studio'' \<and>
       message (turns (snd (start_conversation cont ask topic init)) ! i) = [] \<longrightarrow>
       Suc i = length (turns (snd (start_conversation cont ask topic init))) \<and>
       fst (start_conversation cont ask topic init) =
         Inr (turns (snd (start_conversation cont ask topic init)))) \<and>
   (snd (fst (ask (copilot_client init) topic)) = None \<and>
    strip (collect_response [] (fst (fst (ask (copilot_client init) topic)))) = [] \<longrightarrow>
    MAX_TURNS = 20 \<and>
    fst (start_conversation cont ask topic init) =
      Inr [\<lparr>turn_number = 1, sender = ''azure_ai_agent'', message = topic, timestamp = 0\<rparr>,
           \<lparr>turn_number = 2, sender = ''copilot_studio'', message = [], timestamp = 0\<rparr>])"
proof (intro conjI)
  show "turns s \<noteq> [] \<and> current_turn s < MAX_TURNS \<and>
    snd (fst (ask (copilot_client s) (message (last (turns s))))) = None \<and>
    strip (collect_response [] (fst (fst (ask (copilot_client s) (message (last (turns s))))))) = [] \<longrightarrow>
    fst (conversation_loop cont ask s) = Inr () \<and>
    turns (snd (conversation_loop cont ask s)) =
      turns s @ [\<lparr>turn_number = current_turn s + 1, sender = ''copilot_studio'',
                   message = [], timestamp = 0\<rparr>] \<and>
    current_turn (snd (conversation_loop cont ask s)) = current_turn s + 1 \<and>
    azure_ai_client (snd (conversation_loop cont ask s)) = azure_ai_client s \<and>
    copilot_client (snd (conversation_loop cont ask s)) =
      snd (ask (copilot_client s) (message (last (turns s))))"
  proof
    assume a: "turns s \<noteq> [] \<and> current_turn s < MAX_TURNS \<and>
      snd (fst (ask (copilot_client s) (message (last (turns s))))) = None \<and>
      strip (collect_response [] (fst (fst (ask (copilot_client s) (message (last (turns s))))))) = []"
    have "conversation_loop cont ask s =
           (Inr (),
            turns_append (ConversationTurn_init (current_turn s + 1) ''copilot_studio'' [] None)
              (s\<lparr>copilot_client := snd (ask (copilot_client s) (message (last (turns s)))),
                  current_turn := current_turn s + 1\<rparr>))"
      using a by (intro empty_reply_returns) simp_all
    then show "fst (conversation_loop cont ask s) = Inr () \<and>
      turns (snd (conversation_loop cont ask s)) =
        turns s @ [\<lparr>turn_number = current_turn s + 1, sender = ''copilot_studio'',
                     message = [], timestamp = 0\<rparr>] \<and>
      current_turn (snd (conversation_loop cont ask s)) = current_turn s + 1 \<and>
      azure_ai_client (snd (conversation_loop cont ask s)) = azure_ai_client s \<and>
      copilot_client (snd (conversation_loop cont ask s)) =
        snd (ask (copilot_client s) (message (last (turns s))))"
      by (simp add: turns_append_def ConversationTurn_init_def)
  qed
next
  show "\<forall>h\<in>set (loop_heads cont ask (seed_state topic init)).
      turns h \<noteq> [] \<and> current_turn h < MAX_TURNS \<and>
      (snd (fst (ask (copilot_client h) (message (last (turns h))))) = None \<and>
       strip (collect_response [] (fst (fst (ask (copilot_client h) (message (last (turns h))))))) = [] \<longrightarrow>
       fst (start_conversation cont ask topic init) =
         Inr (turns h @ [\<lparr>turn_number = current_turn h + 1, sender = ''copilot_studio'',
                           message = [], timestamp = 0\<rparr>]) \<and>
       azure_ai_client (snd (start_conversation cont ask topic init)) = azure_ai_client h \<and>
       copilot_client (snd (start_conversation cont ask topic init)) =
         snd (ask (copilot_client h) (message (last (turns h)))))"
  proof (intro ballI conjI impI)
    fix h
    assume h: "h \<in> set (loop_heads cont ask (seed_state topic init))"
    show "turns h \<noteq> []" "current_turn h < MAX_TURNS"
      using loop_heads_same_result [OF h seed_head_facts] by simp_all
    assume e: "snd (fst (ask (copilot_client h) (message (last (turns h))))) = None \<and>
       strip (collect_response [] (fst (fst (ask (copilot_client h) (message (last (turns h))))))) = []"
    show "fst (start_conversation cont ask topic init) =
         Inr (turns h @ [\<lparr>turn_number = current_turn h + 1, sender = ''copilot_studio'',
                           message = [], timestamp = 0\<rparr>])"
      using e by (intro empty_reply_ends_run(1) [OF h]) simp_all
    show "azure_ai_client (snd (start_conversation cont ask topic init)) = azure_ai_client h"
      using e by (intro empty_reply_ends_run(2) [OF h]) simp_all
    show "copilot_client (snd (start_conversation cont ask topic init)) =
         snd (ask (copilot_client h) (message (last (turns h))))"
      using e by (intro empty_reply_ends_run(3) [OF h]) simp_all
  qed
next
  show "\<forall>i<length (turns (snd (start_conversation cont ask topic init))).
       sender (turns (snd (start_conversation cont ask topic init)) ! i) = ''copilot_studio'' \<and>
       message (turns (snd (start_conversation cont ask topic init)) ! i) = [] \<longrightarrow>
       Suc i = length (turns (snd (start_conversation cont ask topic init))) \<and>
       fst (start_conversation cont ask topic init) =
         Inr (turns (snd (start_conversation cont ask topic init)))"
    using empty_copilot_turn_is_last [of _ cont ask topic init] by blast
next
  show "snd (fst (ask (copilot_client init) topic)) = None \<and>
    strip (collect_response [] (fst (fst (ask (copilot_client init) topic)))) = [] \<longrightarrow>
    MAX_TURNS = 20 \<and>
    fst (start_conversation cont ask topic init) =
      Inr [\<lparr>turn_number = 1, sender = ''azure_ai_agent'', message = topic, timestamp = 0\<rparr>,
           \<lparr>turn_number = 2, sender = ''copilot_studio'', message = [], timestamp = 0\<rparr>]"
    using first_empty_reply [of ask init topic cont] by (simp add: MAX_TURNS_def)
qed


lemma late_head:
  "late_silent_head \<in> set (loop_heads echo_continue late_silent_ask (seed_state ''Hello'' (conv0 () 0)))"
  by (simp add: loop_heads.simps seed_state_def conv0_def copilot_turn_def azure_turn_def
        late_silent_ask_def echo_continue_def turns_append_def ConversationTurn_init_def
        MAX_TURNS_def strip_def isspace_def Let_def late_silent_head_def late_silent_turns_def)

lemma late_head_reply:
  "snd (fst (late_silent_ask (copilot_client late_silent_head) (message (last (turns late_silent_head))))) = None"
  "strip (collect_response []
     (fst (fst (late_silent_ask (copilot_client late_silent_head) (message (last (turns late_silent_head))))))) = []"
  by (simp_all add: late_silent_ask_def late_silent_head_def strip_def)

theorem empty_copilot_message_ends_conversation_witness:
  "late_silent_head \<in> set (loop_heads echo_continue late_silent_ask (seed_state ''Hello'' (conv0 () 0))) \<and>
   turns late_silent_head = late_silent_turns \<and>
   length late_silent_turns = 3 \<and>
   current_turn late_silent_head < MAX_TURNS \<and>
   snd (fst (late_silent_ask (copilot_client late_silent_head) (message (last (turns late_silent_head))))) = None \<and>
   strip (collect_response []
     (fst (fst (late_silent_ask (copilot_client late_silent_head) (message (last (turns late_silent_head))))))) = [] \<and>
   fst (start_conversation echo_continue late_silent_ask ''Hello'' (conv0 () 0)) =
     Inr (late_silent_turns @
          [\<lparr>turn_number = 4, sender = ''copilot_studio'', message = [], timestamp = 0\<rparr>]) \<and>
   copilot_client (snd (start_conversation echo_continue late_silent_ask ''Hello'' (conv0 () 0))) = 2 \<and>
   snd (fst (silent_ask (copilot_client (conv0 () ())) ''Hello'')) = None \<and>
   strip (collect_response [] (fst (fst (silent_ask (copilot_client (conv0 () ())) ''Hello'')))) = [] \<and>
   fst (start_conversation echo_continue silent_ask ''Hello'' (conv0 () ())) = Inr silent_turns"
proof -
  note first = empty_copilot_message_ends_conversation
    [where ask = silent_ask and cont = echo_continue and topic = "''Hello''" and init = "conv0 () ()",
     THEN conjunct2, THEN conjunct2, THEN conjunct2]
  have silent:
    "snd (fst (silent_ask (copilot_client (conv0 () ())) ''Hello'')) = None"
    "strip (collect_response [] (fst (fst (silent_ask (copilot_client (conv0 () ())) ''Hello'')))) = []"
    by (simp_all add: silent_ask_def strip_def)
  from first silent have first_run:
    "fst (start_conversation echo_continue silent_ask ''Hello'' (conv0 () ())) = Inr silent_turns"
    by (simp add: silent_turns_def)
  note t = empty_copilot_message_ends_conversation
    [where s = late_silent_head and ask = late_silent_ask and cont = echo_continue
       and topic = "''Hello''" and init = "conv0 () 0"]
  note at_head = t [THEN conjunct2, THEN conjunct1, THEN bspec, OF late_head]
  from at_head late_head_reply have
    "fst (start_conversation echo_continue late_silent_ask ''Hello'' (conv0 () 0)) =
       Inr (turns late_silent_head @
            [\<lparr>turn_number = current_turn late_silent_head + 1, sender = ''copilot_studio'',
              message = [], timestamp = 0\<rparr>])"
    "copilot_client (snd (start_conversation echo_continue late_silent_ask ''Hello'' (conv0 () 0))) =
       snd (late_silent_ask (copilot_client late_silent_head) (message (last (turns late_silent_head))))"
    "current_turn late_silent_head < MAX_TURNS"
    by simp_all
  then show ?thesis
    using late_head late_head_reply silent first_run
    by (simp add: late_silent_head_def late_silent_turns_def late_silent_ask_def)
qed

text \<open>
  C6. If the first \<^verbatim>\<open>ask_question\<close> stream raises, \<^verbatim>\<open>start_conversation\<close> raises the
  same exception; \<^verbatim>\<open>self.turns\<close> then holds exactly turn 1, sent by \<^verbatim>\<open>azure_ai_agent\<close>
  with the topic as message; the stream was asked once and the Azure client not at all.
\<close>

theorem copilot_error_propagates:
  assumes "snd (fst (ask (copilot_client s) initial_topic)) = Some e"
  shows "fst (start_conversation cont ask initial_topic s) = Inl e \<and>
         turns (snd (start_conversation cont ask initial_topic s)) =
           [\<lparr>turn_number = 1, sender = ''azure_ai_agent'', message = initial_topic, timestamp = 0\<rparr>] \<and>
         copilot_client (snd (start_conversation cont ask initial_topic s)) =
           snd (ask (copilot_client s) initial_topic) \<and>
         azure_ai_client (snd (start_conversation cont ask initial_topic s)) = azure_ai_client s"
  using assms one_less_MAX_TURNS
  by (simp add: start_conversation_seed conversation_loop.simps [of cont ask "seed_state initial_topic s"]
        first_copilot_turn seed_state_simps ConversationTurn_init_def)

theorem copilot_error_propagates_witness:
  "snd (fst (failing_ask (copilot_client (conv0 () (0::nat))) ''Hello'')) =
     Some (Exn ''ConnectionError'' ''connection refused'' None) \<and>
   fst (start_conversation echo_continue failing_ask ''Hello'' (conv0 () 0)) =
     Inl (Exn ''ConnectionError'' ''connection refused'' None) \<and>
   turns (snd (start_conversation echo_continue failing_ask ''Hello'' (conv0 () 0))) =
     [\<lparr>turn_number = 1, sender = ''azure_ai_agent'', message = ''Hello'', timestamp = 0\<rparr>] \<and>
   copilot_client (snd (start_conversation echo_continue failing_ask ''Hello'' (conv0 () 0))) = 1"
  using copilot_error_propagates [of failing_ask "conv0 () 0" "''Hello''"
      "Exn ''ConnectionError'' ''connection refused'' None" echo_continue]
  by (simp add: failing_ask_def conv0_def)

lemma render_turns_acc:
  "render_turns acc ts =
     acc @ concat (map (\<lambda>t. ''Turn '' @ str_int (turn_number t) @ '' - '' @
                          (if sender t = ''azure_ai_agent'' then ''Azure AI Agent'' else ''Copilot Studio'') @
                          '': '' @ message t @ [CHR 0x0A, CHR 0x0A]) ts)"
  by (induction ts arbitrary: acc) (simp_all add: Let_def)

text \<open>
  C8. \<^verbatim>\<open>get_full_conversation_text\<close> is the concatenation, in stored order, of one piece
  per turn: \<^verbatim>\<open>Turn {n} - {label}: {message}\<close> followed by two newlines, the label being
  \<^verbatim>\<open>Azure AI Agent\<close> for sender \<^verbatim>\<open>azure_ai_agent\<close> and \<^verbatim>\<open>Copilot Studio\<close> otherwise. It
  depends on the state through \<^verbatim>\<open>turns\<close> only, so two calls on states with the same turns give
  the same string.
\<close>

theorem full_conversation_text_renders_turns_in_order:
  "get_full_conversation_text s =
     concat (map (\<lambda>t. ''Turn '' @ str_int (turn_number t) @ '' - '' @
                     (if sender t = ''azure_ai_agent'' then ''Azure AI Agent'' else ''Copilot Studio'') @
                     '': '' @ message t @ [CHR 0x0A, CHR 0x0A]) (turns s)) \<and>
   (turns s' = turns s \<longrightarrow> get_full_conversation_text s' = get_full_conversation_text s)"
  by (simp add: get_full_conversation_text_def render_turns_acc)

lemma str_int_1: "str_int 1 = ''1''"
  by (simp add: str_int_def str_nat.simps digit_char_def)

lemma str_int_2: "str_int 2 = ''2''"
  by (simp add: str_int_def str_nat.simps digit_char_def)

lemma silent_text:
  "get_full_conversation_text silent_final =
     ''Turn 1 - Azure AI Agent: Hello'' @ [CHR 0x0A, CHR 0x0A] @
     ''Turn 2 - Copilot Studio: '' @ [CHR 0x0A, CHR 0x0A]"
  by (simp add: get_full_conversation_text_def silent_final_def silent_turns_def str_int_1 str_int_2)

theorem full_conversation_text_renders_turns_in_order_witness:
  "turns (silent_final\<lparr>current_turn := 7\<rparr>) = turns silent_final \<and>
   get_full_conversation_text (silent_final\<lparr>current_turn := 7\<rparr>) =
     ''Turn 1 - Azure AI Agent: Hello'' @ [CHR 0x0A, CHR 0x0A] @
     ''Turn 2 - Copilot Studio: '' @ [CHR 0x0A, CHR 0x0A]"
  using full_conversation_text_renders_turns_in_order [of silent_final "silent_final\<lparr>current_turn := 7\<rparr>"]
    silent_text
  by simp

definition senders_inv :: "('a, 'b) AgentToAgentConversation \<Rightarrow> bool" where
  "senders_inv s =
     list_all (\<lambda>t. sender t = ''azure_ai_agent'' \<or> sender t = ''copilot_studio'') (turns s)"

lemma senders_inv_copilot:
  assumes "senders_inv s" "current_turn s < MAX_TURNS" "copilot_turn ask s = (r, s')"
  shows "senders_inv s'"
  using assms(3)
proof (cases rule: copilot_turn_cases)
  case index
  then show ?thesis using assms(1) by simp
next
  case (raised e)
  then show ?thesis using assms(1) by (simp add: senders_inv_def)
next
  case recorded
  then show ?thesis using assms(1)
    by (simp add: senders_inv_def turns_append_def ConversationTurn_init_def)
qed

lemma senders_inv_azure:
  assumes "senders_inv s" "current_turn s < MAX_TURNS" "azure_turn cont c s = (r, s')"
  shows "senders_inv s'"
  using assms(3)
proof (cases rule: azure_turn_cases)
  case (raised e)
  then show ?thesis using assms(1) by (simp add: senders_inv_def)
next
  case (recorded m)
  then show ?thesis using assms(1)
    by (simp add: senders_inv_def turns_append_def ConversationTurn_init_def)
qed

lemma senders_inv_start: "senders_inv (snd (start_conversation cont ask topic s))"
proof -
  have "senders_inv (seed_state topic s)"
    by (simp add: senders_inv_def seed_state_simps ConversationTurn_init_def)
  then have "senders_inv (snd (conversation_loop cont ask (seed_state topic s)))"
    by (rule loop_preserves) (erule (2) senders_inv_copilot, erule (2) senders_inv_azure)
  then show ?thesis by (simp add: start_conversation_state)
qed

lemma two_senders_count:
  "list_all (\<lambda>t. sender t = ''azure_ai_agent'' \<or> sender t = ''copilot_studio'') ts \<Longrightarrow>
   length (filter (\<lambda>t. sender t = ''azure_ai_agent'') ts) +
   length (filter (\<lambda>t. sender t = ''copilot_studio'') ts) = length ts"
  by (induction ts) auto

text \<open>
  C7. The summary's \<^verbatim>\<open>total_turns\<close> is the number of turns, its \<^verbatim>\<open>conversation_length\<close>
  the length of the transcript text, its \<^verbatim>\<open>turns\<close> the stored turns in order reduced to turn
  number, sender and message. It depends on the state through \<^verbatim>\<open>turns\<close> only. In every
  state that \<^verbatim>\<open>start_conversation\<close> ends in, the two per-sender counts add up to
  \<^verbatim>\<open>total_turns\<close>.
\<close>

theorem conversation_summary_of_turns:
  "total_turns (get_conversation_summary s) = int (length (turns s)) \<and>
   conversation_length (get_conversation_summary s) = int (length (get_full_conversation_text s)) \<and>
   turns_summary (get_conversation_summary s) =
     map (\<lambda>t. \<lparr>turn = turn_number t, turn_sender = sender t, turn_message = message t\<rparr>) (turns s) \<and>
   (turns s' = turns s \<longrightarrow> get_conversation_summary s' = get_conversation_summary s) \<and>
   (s = snd (start_conversation cont ask topic s0) \<longrightarrow>
      azure_ai_turns (get_conversation_summary s) + copilot_studio_turns (get_conversation_summary s) =
        total_turns (get_conversation_summary s))"
proof (intro conjI impI)
  assume "s = snd (start_conversation cont ask topic s0)"
  then have "senders_inv s" by (simp add: senders_inv_start)
  then show "azure_ai_turns (get_conversation_summary s) + copilot_studio_turns (get_conversation_summary s) =
        total_turns (get_conversation_summary s)"
    using two_senders_count [of "turns s"]
    by (simp add: get_conversation_summary_def senders_inv_def)
qed (simp_all add: get_conversation_summary_def get_full_conversation_text_def)

lemma silent_summary:
  "get_conversation_summary (silent_final\<lparr>current_turn := 7\<rparr>) =
     \<lparr>total_turns = 2, azure_ai_turns = 1, copilot_studio_turns = 1, conversation_length = 59,
      turns_summary = [\<lparr>turn = 1, turn_sender = ''azure_ai_agent'', turn_message = ''Hello''\<rparr>,
                       \<lparr>turn = 2, turn_sender = ''copilot_studio'', turn_message = []\<rparr>]\<rparr>"
  by (simp add: get_conversation_summary_def get_full_conversation_text_def silent_final_def
        silent_turns_def str_int_1 str_int_2)

theorem conversation_summary_of_turns_witness:
  "snd (start_conversation echo_continue silent_ask ''Hello'' (conv0 () ())) = silent_final \<and>
   turns (silent_final\<lparr>current_turn := 7\<rparr>) = turns silent_final \<and>
   get_conversation_summary (silent_final\<lparr>current_turn := 7\<rparr>) =
     \<lparr>total_turns = 2, azure_ai_turns = 1, copilot_studio_turns = 1, conversation_length = 59,
      turns_summary = [\<lparr>turn = 1, turn_sender = ''azure_ai_agent'', turn_message = ''Hello''\<rparr>,
                       \<lparr>turn = 2, turn_sender = ''copilot_studio'', turn_message = []\<rparr>]\<rparr> \<and>
   azure_ai_turns (get_conversation_summary silent_final) +
     copilot_studio_turns (get_conversation_summary silent_final) =
     total_turns (get_conversation_summary silent_final)"
  using conversation_summary_of_turns [of silent_final "silent_final\<lparr>current_turn := 7\<rparr>"
      echo_continue silent_ask "''Hello''" "conv0 () ()"]
  by (simp add: silent_run silent_summary)

lemma collect_response_acc:
  "collect_response acc acts = acc @ concat (message_fragment_texts acts)"
  by (induction acts arbitrary: acc)
     (auto simp: message_fragment_texts_def map_filter_simps split: option.splits)

lemma dropWhile_hd: "dropWhile P xs \<noteq> [] \<Longrightarrow> \<not> P (hd (dropWhile P xs))"
  by (rule hd_dropWhile)

lemma dropWhile_rev_nonempty: "dropWhile P (rev d) \<noteq> [] \<Longrightarrow> d \<noteq> []"
  by auto

lemma last_dropWhile_nonempty: "dropWhile P xs \<noteq> [] \<Longrightarrow> last (dropWhile P xs) = last xs"
  by (induction xs) (auto split: if_splits)

lemma strip_no_outer_space: "no_outer_space (strip m)"
proof (cases "strip m = []")
  case True
  then show ?thesis by (simp add: no_outer_space_def)
next
  case False
  let ?d = "dropWhile isspace m"
  let ?e = "dropWhile isspace (rev ?d)"
  from False have e: "?e \<noteq> []" by (simp add: strip_def)
  have d: "?d \<noteq> []" by (rule dropWhile_rev_nonempty [OF e])
  have "last (strip m) = hd ?e" using e by (simp add: strip_def last_rev)
  then have l: "\<not> isspace (last (strip m))" using hd_dropWhile [OF e] by simp
  have "hd (strip m) = last ?e" using e by (simp add: strip_def hd_rev)
  also have "last ?e = last (rev ?d)" by (rule last_dropWhile_nonempty [OF e])
  also have "\<dots> = hd ?d" using d by (simp add: last_rev)
  finally have "\<not> isspace (hd (strip m))" using hd_dropWhile [OF d] by simp
  with l show ?thesis by (simp add: no_outer_space_def)
qed


definition copilot_messages_inv ::
  "'b ask_question \<Rightarrow> ('a, 'b) AgentToAgentConversation \<Rightarrow> bool" where
  "copilot_messages_inv ask s =
     list_all
       (\<lambda>t. sender t = ''copilot_studio'' \<longrightarrow>
              no_outer_space (message t) \<and>
              (\<exists>b q. message t = strip (concat (message_fragment_texts (fst (fst (ask b q)))))))
       (turns s)"

lemma copilot_messages_inv_copilot:
  assumes "copilot_messages_inv ask s" "current_turn s < MAX_TURNS" "copilot_turn ask s = (r, s')"
  shows "copilot_messages_inv ask s'"
  using assms(3)
proof (cases rule: copilot_turn_cases)
  case index
  then show ?thesis using assms(1) by simp
next
  case (raised e)
  then show ?thesis using assms(1) by (simp add: copilot_messages_inv_def)
next
  case recorded
  have "\<exists>b q. strip (collect_response [] (fst (fst (ask (copilot_client s) (message (last (turns s))))))) =
          strip (concat (message_fragment_texts (fst (fst (ask b q)))))"
    by (intro exI [of _ "copilot_client s"] exI [of _ "message (last (turns s))"])
       (simp add: collect_response_acc)
  then show ?thesis using assms(1) recorded(4) strip_no_outer_space
    by (simp add: copilot_messages_inv_def turns_append_def ConversationTurn_init_def)
qed

lemma copilot_messages_inv_azure:
  assumes "copilot_messages_inv ask s" "current_turn s < MAX_TURNS" "azure_turn cont c s = (r, s')"
  shows "copilot_messages_inv ask s'"
  using assms(3)
proof (cases rule: azure_turn_cases)
  case (raised e)
  then show ?thesis using assms(1) by (simp add: copilot_messages_inv_def)
next
  case (recorded m)
  then show ?thesis using assms(1)
    by (simp add: copilot_messages_inv_def turns_append_def ConversationTurn_init_def)
qed

lemma copilot_messages_inv_start:
  "copilot_messages_inv ask (snd (start_conversation cont ask topic s))"
proof -
  have "copilot_messages_inv ask (seed_state topic s)"
    by (simp add: copilot_messages_inv_def seed_state_simps ConversationTurn_init_def)
  then have "copilot_messages_inv ask (snd (conversation_loop cont ask (seed_state topic s)))"
    by (rule loop_preserves) (erule (2) copilot_messages_inv_copilot, erule (2) copilot_messages_inv_azure)
  then show ?thesis by (simp add: start_conversation_state)
qed

lemma copilot_turn_recorded:
  assumes "copilot_turn ask s = (Inr c, s')"
  shows "c = concat (message_fragment_texts (fst (fst (ask (copilot_client s) (message (last (turns s)))))))"
    and "turns s' = turns s @ [\<lparr>turn_number = current_turn s + 1, sender = ''copilot_studio'',
                                 message = strip c, timestamp = 0\<rparr>]"
  using assms
  by (cases rule: copilot_turn_cases; simp add: collect_response_acc turns_append_def ConversationTurn_init_def)+

text \<open>
  C10. A \<^verbatim>\<open>None\<close> fragment, a fragment whose type is not message and a fragment whose
  text is \<^verbatim>\<open>None\<close> add nothing to \<^verbatim>\<open>copilot_response\<close>, which is the concatenation of the
  texts of the message fragments. A completed Copilot Studio turn records exactly that
  concatenation, stripped; a stripped string has no leading or trailing whitespace; and in
  every state \<^verbatim>\<open>start_conversation\<close> ends in, every \<^verbatim>\<open>copilot_studio\<close> turn carries such a
  message. The message is a string by its type, so it is never \<^verbatim>\<open>None\<close>.
\<close>

theorem copilot_message_is_stripped_message_text:
  "collect_response r (None # acts) = collect_response r acts \<and>
   (activity_type a \<noteq> Message \<longrightarrow> collect_response r (Some a # acts) = collect_response r acts) \<and>
   (activity_text a = None \<longrightarrow> collect_response r (Some a # acts) = collect_response r acts) \<and>
   collect_response [] acts = concat (message_fragment_texts acts) \<and>
   (copilot_turn ask s = (Inr c, s') \<longrightarrow>
      c = concat (message_fragment_texts (fst (fst (ask (copilot_client s) (message (last (turns s))))))) \<and>
      turns s' = turns s @ [\<lparr>turn_number = current_turn s + 1, sender = ''copilot_studio'',
                              message = strip c, timestamp = 0\<rparr>]) \<and>
   no_outer_space (strip c) \<and>
   list_all
     (\<lambda>t. sender t = ''copilot_studio'' \<longrightarrow>
            no_outer_space (message t) \<and>
            (\<exists>b q. message t = strip (concat (message_fragment_texts (fst (fst (ask b q)))))))
     (turns (snd (start_conversation cont ask topic s0)))"
proof (intro conjI impI)
  show "collect_response [] acts = concat (message_fragment_texts acts)"
    by (simp add: collect_response_acc)
  show "no_outer_space (strip c)" by (rule strip_no_outer_space)
  show "list_all
     (\<lambda>t. sender t = ''copilot_studio'' \<longrightarrow>
            no_outer_space (message t) \<and>
            (\<exists>b q. message t = strip (concat (message_fragment_texts (fst (fst (ask b q)))))))
     (turns (snd (start_conversation cont ask topic s0)))"
    using copilot_messages_inv_start [of ask cont topic s0] by (simp add: copilot_messages_inv_def)
next
  assume "copilot_turn ask s = (Inr c, s')"
  then show "c = concat (message_fragment_texts (fst (fst (ask (copilot_client s) (message (last (turns s)))))))"
    and "turns s' = turns s @ [\<lparr>turn_number = current_turn s + 1, sender = ''copilot_studio'',
                              message = strip c, timestamp = 0\<rparr>]"
    by (rule copilot_turn_recorded)+
qed simp_all

lemma mixed_texts: "message_fragment_texts mixed_stream = [''  Hi '', ''there  '']"
  by (simp add: message_fragment_texts_def mixed_stream_def map_filter_simps)

lemma mixed_strip: "strip ''  Hi there  '' = ''Hi there''"
  by (simp add: strip_def isspace_def)

lemma mixed_turn:
  "copilot_turn mixed_ask silent_final =
     (Inr ''  Hi there  '',
      turns_append \<lparr>turn_number = 3, sender = ''copilot_studio'', message = ''Hi there'', timestamp = 0\<rparr>
        (silent_final\<lparr>current_turn := 3\<rparr>))"
  by (simp add: copilot_turn_def mixed_ask_def Let_def collect_response_acc mixed_texts mixed_strip
        ConversationTurn_init_def silent_final_def silent_turns_def)

lemma silent_final_turns: "turns silent_final = silent_turns"
  by (simp add: silent_final_def)

lemma silent_final_current: "current_turn silent_final = 2"
  by (simp add: silent_final_def)

theorem copilot_message_is_stripped_message_text_witness:
  "activity_type \<lparr>activity_type = Other, activity_text = Some ''typing''\<rparr> \<noteq> Message \<and>
   activity_text \<lparr>activity_type = Message, activity_text = None\<rparr> = None \<and>
   collect_response [] mixed_stream = ''  Hi there  '' \<and>
   fst (copilot_turn mixed_ask silent_final) = Inr ''  Hi there  '' \<and>
   turns (snd (copilot_turn mixed_ask silent_final)) =
     silent_turns @ [\<lparr>turn_number = 3, sender = ''copilot_studio'', message = ''Hi there'', timestamp = 0\<rparr>] \<and>
   no_outer_space ''Hi there'' \<and>
   sender (silent_turns ! 1) = ''copilot_studio'' \<and> no_outer_space (message (silent_turns ! 1))"
  using copilot_message_is_stripped_message_text [of "''x''" mixed_stream
      "\<lparr>activity_type = Other, activity_text = Some ''typing''\<rparr>" mixed_ask silent_final
      "''  Hi there  ''" "snd (copilot_turn mixed_ask silent_final)" echo_continue "''Hello''" "conv0 () ()"]
  by (simp add: mixed_turn collect_response_acc mixed_texts mixed_strip mixed_ask_def
        turns_append_def silent_final_turns silent_final_current silent_turns_def
        no_outer_space_def isspace_def message_fragment_texts_def map_filter_simps)

section \<open>The endpoint's history\<close>

lemma wf_client_list:
  assumes "wf_client h self"
  shows "conversation_history self < length h"
    and "h ! conversation_history self = ListObj (list_of_ref h (conversation_history self))"
    and "\<And>x. x \<in> set (list_of_ref h (conversation_history self)) \<Longrightarrow>
           x < length h \<and> x \<noteq> conversation_history self"
proof -
  show 1: "conversation_history self < length h"
    using assms by (simp add: wf_client_def)
  show 2: "h ! conversation_history self = ListObj (list_of_ref h (conversation_history self))"
    using assms by (cases "h ! conversation_history self") (simp_all add: wf_client_def list_of_ref_def)
  fix x
  assume "x \<in> set (list_of_ref h (conversation_history self))"
  then have "x < length h \<and> (case h ! x of DictObj kvs \<Rightarrow> True | ListObj ys \<Rightarrow> False)"
    using assms 2 by (cases "h ! conversation_history self") (auto simp: wf_client_def list_all_iff)
  then show "x < length h \<and> x \<noteq> conversation_history self"
    using 2 by (auto split: pyobj.splits)
qed

lemma history_view_frame:
  assumes "wf_client h self"
    and "length h \<le> length h'"
    and "h' ! conversation_history self = h ! conversation_history self"
    and "\<And>x. x \<in> set (list_of_ref h (conversation_history self)) \<Longrightarrow> h' ! x = h ! x"
  shows "history_view h' self = history_view h self"
proof -
  note w = wf_client_list [OF assms(1)]
  have l: "list_of_ref h' (conversation_history self) = list_of_ref h (conversation_history self)"
    using w(1) assms(2,3) by (simp add: list_of_ref_def)
  have "dict_of_ref h' x = dict_of_ref h x" if "x \<in> set (list_of_ref h (conversation_history self))" for x
    using w(3) [OF that] assms(4) [OF that] assms(2) by (simp add: dict_of_ref_def)
  then show ?thesis by (simp add: history_view_def l)
qed





lemma wf_heap1: "wf_client heap1 client0"
  by (simp add: wf_client_def heap1_def client0_def)









text \<open>
  C9, as amended. \<^verbatim>\<open>get_conversation_history\<close> returns a new list object, distinct from the
  internal one, with the same elements; whatever the caller then makes of that list object
  (appending, removing, replacing, clearing), the internal history is as before.
\<close>

theorem history_copy_protects_list_only:
  assumes "wf_client h self"
    and "get_conversation_history h self = (r, h')"
  shows "r \<noteq> conversation_history self \<and>
         list_of_ref h' r = list_of_ref h (conversation_history self) \<and>
         history_view h' self = history_view h self \<and>
         (\<forall>ob. history_view (h'[r := ob]) self = history_view h self)"
proof -
  note w = wf_client_list [OF assms(1)]
  have r: "r = length h" and h': "h' = h @ [ListObj (list_of_ref h (conversation_history self))]"
    using assms(2) by (simp_all add: get_conversation_history_def alloc_def)
  have 1: "r \<noteq> conversation_history self" using w(1) r by simp
  have 2: "list_of_ref h' r = list_of_ref h (conversation_history self)"
    by (simp add: r h' list_of_ref_def)
  have 3: "history_view h' self = history_view h self"
    using w by (intro history_view_frame [OF assms(1)]) (simp_all add: h' nth_append)
  have 4: "history_view (h'[r := ob]) self = history_view h self" for ob
    using w by (intro history_view_frame [OF assms(1)]) (auto simp: h' r nth_append)
  show ?thesis using 1 2 3 4 by simp
qed

lemma heap1_copy: "get_conversation_history heap1 client0 = (2, heap1 @ [ListObj [1]])"
  by (simp add: get_conversation_history_def alloc_def list_of_ref_def heap1_def client0_def)

theorem history_copy_protects_list_only_witness:
  "wf_client heap1 client0 \<and>
   get_conversation_history heap1 client0 = (2, heap1 @ [ListObj [1]]) \<and>
   list_of_ref (heap1 @ [ListObj [1]]) 2 = [1] \<and>
   history_view (list_append (heap1 @ [ListObj [1]]) 2 7) client0 = history_view heap1 client0 \<and>
   history_view ((heap1 @ [ListObj [1]])[2 := ListObj []]) client0 =
     [[(''role'', PStr ''user''), (''content'', PStr ''hi''), (''turn'', PInt 2)]]"
  using history_copy_protects_list_only [OF wf_heap1 heap1_copy]
  by (simp add: wf_heap1 heap1_copy)
     (simp add: history_view_def list_append_def list_of_ref_def dict_of_ref_def heap1_def client0_def)

text \<open>
  C9 as stated fails: the copy is shallow. Assigning to a key of the first entry of the
  returned list changes the internal history.
\<close>

theorem history_copy_shares_entries:
  "get_conversation_history heap1 client0 = (2, heap1 @ [ListObj [1]]) \<and>
   list_of_ref (heap1 @ [ListObj [1]]) 2 ! 0 = 1 \<and>
   history_view heap1 client0 =
     [[(''role'', PStr ''user''), (''content'', PStr ''hi''), (''turn'', PInt 2)]] \<and>
   history_view (dict_setitem (heap1 @ [ListObj [1]]) 1 ''content'' (PStr ''tampered'')) client0 =
     [[(''role'', PStr ''user''), (''content'', PStr ''tampered''), (''turn'', PInt 2)]] \<and>
   history_view (dict_setitem (heap1 @ [ListObj [1]]) 1 ''content'' (PStr ''tampered'')) client0 \<noteq>
     history_view heap1 client0"
  by (simp add: heap1_copy)
     (simp add: history_view_def dict_setitem_def list_of_ref_def dict_of_ref_def heap1_def client0_def)

section \<open>The loop of the source and the loop of the specification\<close>

text \<open>
  A result of the source's loop matches a result of the specification's when the endpoints
  are left in the same states and either both raise the same exception or both return, the
  stored turns being the returned turn records.
\<close>

definition result_rel ::
  "(exn + unit) \<times> ('a, 'b) AgentToAgentConversation \<Rightarrow> (exn + TurnRecord list) \<times> ('a \<times> 'b) \<Rightarrow> bool" where
  "result_rel code spec =
     (snd spec = (azure_ai_client (snd code), copilot_client (snd code)) \<and>
      (case fst spec of
         Inl e \<Rightarrow> fst code = Inl e
       | Inr T \<Rightarrow> fst code = Inr () \<and> turns (snd code) = map turn_of_record T))"

text \<open>
  For endpoints \<open>f\<close> and \<open>g\<close> that are functions: the first turn is the topic from
  \<^verbatim>\<open>azure_ai_agent\<close>, and every later turn is made from the message of the turn before it,
  by \<open>f\<close> (stripped) at odd positions and by \<open>g\<close> at even ones.
\<close>

definition threaded :: "(string \<Rightarrow> string) \<Rightarrow> (string \<Rightarrow> int \<Rightarrow> string) \<Rightarrow> string \<Rightarrow> ConversationTurn list \<Rightarrow> bool" where
  "threaded f g topic ts =
     (ts \<noteq> [] \<and>
      ts ! 0 = \<lparr>turn_number = 1, sender = ''azure_ai_agent'', message = topic, timestamp = 0\<rparr> \<and>
      (\<forall>i. Suc i < length ts \<longrightarrow>
         ts ! Suc i =
           (if even i
            then \<lparr>turn_number = int i + 2, sender = ''copilot_studio'',
                  message = strip (f (message (ts ! i))), timestamp = 0\<rparr>
            else \<lparr>turn_number = int i + 2, sender = ''azure_ai_agent'',
                  message = g (message (ts ! i)) (int i + 1), timestamp = 0\<rparr>)))"

lemma conversation_loop_step:
  assumes "turns s \<noteq> []"
  shows "conversation_loop cont ask s =
     (if current_turn s < MAX_TURNS then
        (case stream_text ask (copilot_client s) (message (last (turns s))) of
           (Inl e, b') \<Rightarrow> (Inl e, s\<lparr>copilot_client := b'\<rparr>)
         | (Inr c, b') \<Rightarrow>
             if current_turn s + 1 \<ge> MAX_TURNS \<or> strip c = [] then
               (Inr (),
                turns_append (ConversationTurn_init (current_turn s + 1) ''copilot_studio'' (strip c) None)
                  (s\<lparr>copilot_client := b', current_turn := current_turn s + 1\<rparr>))
             else
               (case cont (azure_ai_client s) (strip c) (current_turn s + 1) of
                  (Inl e, a') \<Rightarrow>
                    (Inl e,
                     (turns_append (ConversationTurn_init (current_turn s + 1) ''copilot_studio'' (strip c) None)
                        (s\<lparr>copilot_client := b', current_turn := current_turn s + 1\<rparr>))
                       \<lparr>azure_ai_client := a'\<rparr>)
                | (Inr m, a') \<Rightarrow>
                    conversation_loop cont ask
                      (turns_append (ConversationTurn_init (current_turn s + 1 + 1) ''azure_ai_agent'' m None)
                         ((turns_append (ConversationTurn_init (current_turn s + 1) ''copilot_studio'' (strip c) None)
                            (s\<lparr>copilot_client := b', current_turn := current_turn s + 1\<rparr>))
                           \<lparr>azure_ai_client := a', current_turn := current_turn s + 1 + 1\<rparr>))))
      else (Inr (), s))"
  using assms
  by (subst conversation_loop.simps)
     (auto simp: copilot_turn_def azure_turn_def stream_text_def collect_response_acc turns_append_def
        Let_def split: prod.splits option.splits sum.splits)


lemma turn_of_record_simps:
  "turn_of_record \<lparr>turnNumber = n, turnSender = AgentB, turnMessage = m, turnTimestamp = 0\<rparr> =
     ConversationTurn_init n ''copilot_studio'' m None"
  "turn_of_record \<lparr>turnNumber = n, turnSender = AgentA, turnMessage = m, turnTimestamp = 0\<rparr> =
     ConversationTurn_init n ''azure_ai_agent'' m None"
  by (simp_all add: turn_of_record_def ConversationTurn_init_def)

lemma last_message_record:
  "T \<noteq> [] \<Longrightarrow> message (last (map turn_of_record T)) = turnMessage (last T)"
  by (simp add: last_map turn_of_record_def)

lemma loop_refines_spec:
  assumes "turns s = map turn_of_record T" "T \<noteq> []"
  shows "result_rel (conversation_loop cont ask s)
           (spec_turn_loop cont (stream_text ask) (azure_ai_client s, copilot_client s) T (current_turn s))"
  using assms
proof (induction "nat (MAX_TURNS - current_turn s)" arbitrary: s T rule: less_induct)
  case less
  have ne: "turns s \<noteq> []" using less.prems by simp
  have lm: "message (last (turns s)) = turnMessage (last T)"
    using less.prems by (simp add: last_message_record)
  show ?case
  proof (cases "current_turn s < MAX_TURNS")
    case False
    then show ?thesis
      using less.prems
      by (simp add: conversation_loop_step [OF ne] spec_turn_loop.simps [of _ _ _ T] result_rel_def)
  next
    case True
    obtain rb b' where B: "stream_text ask (copilot_client s) (turnMessage (last T)) = (rb, b')"
      by (cases "stream_text ask (copilot_client s) (turnMessage (last T))")
    show ?thesis
    proof (cases rb)
      case (Inl e)
      then show ?thesis
        using True B lm
        by (simp add: conversation_loop_step [OF ne] spec_turn_loop.simps [of _ _ _ T] result_rel_def)
    next
      case (Inr c)
      show ?thesis
      proof (cases "current_turn s + 1 \<ge> MAX_TURNS \<or> strip c = []")
        case stop: True
        then show ?thesis
          using True B lm Inr less.prems
          by (simp add: conversation_loop_step [OF ne] spec_turn_loop.simps [of _ _ _ T] result_rel_def
                turns_append_def turn_of_record_simps)
      next
        case go: False
        then have lt: "current_turn s + 1 < MAX_TURNS" by simp
        obtain ra a' where A: "cont (azure_ai_client s) (strip c) (current_turn s + 1) = (ra, a')"
          by (cases "cont (azure_ai_client s) (strip c) (current_turn s + 1)")
        show ?thesis
        proof (cases ra)
          case (Inl e)
          then show ?thesis
            using True B lm \<open>rb = Inr c\<close> go lt A
            by (simp add: conversation_loop_step [OF ne] spec_turn_loop.simps [of _ _ _ T] result_rel_def
                  turns_append_def)
        next
          case (Inr m)
          define T' where "T' = T @ [\<lparr>turnNumber = current_turn s + 1, turnSender = AgentB,
                            turnMessage = strip c, turnTimestamp = 0\<rparr>,
                          \<lparr>turnNumber = current_turn s + 1 + 1, turnSender = AgentA,
                            turnMessage = m, turnTimestamp = 0\<rparr>]"
          define s' where "s' = turns_append (ConversationTurn_init (current_turn s + 1 + 1) ''azure_ai_agent'' m None)
                       ((turns_append (ConversationTurn_init (current_turn s + 1) ''copilot_studio'' (strip c) None)
                          (s\<lparr>copilot_client := b', current_turn := current_turn s + 1\<rparr>))
                         \<lparr>azure_ai_client := a', current_turn := current_turn s + 1 + 1\<rparr>)"
          have t': "turns s' = map turn_of_record T'"
            using less.prems by (simp add: s'_def T'_def turns_append_def turn_of_record_simps)
          have c': "current_turn s' = current_turn s + 1 + 1"
            and a'': "azure_ai_client s' = a'" and b'': "copilot_client s' = b'"
            by (simp_all add: s'_def turns_append_def)
          have T'ne: "T' \<noteq> []" by (simp add: T'_def)
          have "nat (MAX_TURNS - current_turn s') < nat (MAX_TURNS - current_turn s)"
            using True unfolding c' by simp
          from less.hyps [OF this t' T'ne] have rec:
            "result_rel (conversation_loop cont ask s')
               (spec_turn_loop cont (stream_text ask) (a', b') T' (current_turn s + 1 + 1))"
            unfolding c' a'' b'' .
          have code: "conversation_loop cont ask s = conversation_loop cont ask s'"
            using True B lm \<open>rb = Inr c\<close> go lt A Inr
            by (simp add: conversation_loop_step [OF ne] s'_def)
          have spec: "spec_turn_loop cont (stream_text ask) (azure_ai_client s, copilot_client s) T (current_turn s) =
               spec_turn_loop cont (stream_text ask) (a', b') T' (current_turn s + 1 + 1)"
            using True B \<open>rb = Inr c\<close> go lt A Inr
            by (simp add: spec_turn_loop.simps [of _ _ _ T] T'_def)
          show ?thesis unfolding code spec by (rule rec)
        qed
      qed
    qed
  qed
qed

lemma start_refines_spec:
  "result_rel (conversation_loop cont ask (seed_state topic s))
     (spec_start cont (stream_text ask) topic (azure_ai_client s, copilot_client s))"
  using loop_refines_spec [of "seed_state topic s"
      "[\<lparr>turnNumber = 1, turnSender = AgentA, turnMessage = topic, turnTimestamp = 0\<rparr>]" cont ask]
  by (simp add: seed_state_simps turn_of_record_simps spec_start_def)


lemma threaded_snoc:
  assumes "threaded f g topic ts"
    and "t = (if odd (length ts)
              then \<lparr>turn_number = int (length ts) + 1, sender = ''copilot_studio'',
                    message = strip (f (message (last ts))), timestamp = 0\<rparr>
              else \<lparr>turn_number = int (length ts) + 1, sender = ''azure_ai_agent'',
                    message = g (message (last ts)) (int (length ts)), timestamp = 0\<rparr>)"
  shows "threaded f g topic (ts @ [t])"
proof -
  have ne: "ts \<noteq> []" using assms(1) by (simp add: threaded_def)
  then obtain n where n: "length ts = Suc n" by (cases ts) auto
  have l: "last ts = ts ! n" using ne n by (simp add: last_conv_nth)
  show ?thesis
    unfolding threaded_def
  proof (intro conjI allI impI)
    show "ts @ [t] \<noteq> []" by simp
    show "(ts @ [t]) ! 0 = \<lparr>turn_number = 1, sender = ''azure_ai_agent'', message = topic, timestamp = 0\<rparr>"
      using assms(1) ne by (simp add: threaded_def nth_append)
  next
    fix i
    assume "Suc i < length (ts @ [t])"
    then consider "Suc i < length ts" | "i = n" using n by (cases "i = n") auto
    then show "(ts @ [t]) ! Suc i =
           (if even i
            then \<lparr>turn_number = int i + 2, sender = ''copilot_studio'',
                  message = strip (f (message ((ts @ [t]) ! i))), timestamp = 0\<rparr>
            else \<lparr>turn_number = int i + 2, sender = ''azure_ai_agent'',
                  message = g (message ((ts @ [t]) ! i)) (int i + 1), timestamp = 0\<rparr>)"
    proof cases
      case 1
      then show ?thesis using assms(1) by (simp add: threaded_def nth_append)
    next
      case 2
      then show ?thesis using n l assms(2) by (simp add: nth_append add.commute)
    qed
  qed
qed

lemma function_loop_threaded:
  assumes "count_inv s" "threaded f g topic (turns s)" "odd (length (turns s))"
  shows "threaded f g topic (turns (snd (conversation_loop (function_continue g) (function_ask f) s)))"
proof (rule loop_rule [where
      I = "\<lambda>s. count_inv s \<and> threaded f g topic (turns s) \<and> odd (length (turns s))"
      and J = "\<lambda>c s. count_inv s \<and> threaded f g topic (turns s) \<and> even (length (turns s)) \<and>
                      message (last (turns s)) = strip c"
      and Q = "\<lambda>r s. threaded f g topic (turns s)"])
  show "count_inv s \<and> threaded f g topic (turns s) \<and> odd (length (turns s))"
    using assms by simp
next
  fix s :: "('a, 'b) AgentToAgentConversation" and r s'
  assume I: "count_inv s \<and> threaded f g topic (turns s) \<and> odd (length (turns s))"
    and B: "copilot_turn (function_ask f) s = (r, s')"
  have ne: "turns s \<noteq> []" using I by (simp add: threaded_def)
  have r: "r = Inr (f (message (last (turns s))))"
    and s': "s' = turns_append
              (ConversationTurn_init (current_turn s + 1) ''copilot_studio''
                 (strip (f (message (last (turns s))))) None)
              (s\<lparr>current_turn := current_turn s + 1\<rparr>)"
    using B ne by (simp_all add: copilot_turn_def function_ask_def Let_def)
  have t: "threaded f g topic (turns s')"
    unfolding s' using I
    by (auto simp: turns_append_def ConversationTurn_init_def count_inv_def intro!: threaded_snoc)
  have "count_inv s'" "even (length (turns s'))"
      "message (last (turns s')) = strip (f (message (last (turns s))))"
    using I by (simp_all add: s' turns_append_def count_inv_def ConversationTurn_init_def)
  with t r show "case r of Inl e \<Rightarrow> threaded f g topic (turns s')
      | Inr c \<Rightarrow> if MAX_TURNS \<le> current_turn s' \<or> strip c = [] then threaded f g topic (turns s')
                 else count_inv s' \<and> threaded f g topic (turns s') \<and> even (length (turns s')) \<and>
                      message (last (turns s')) = strip c"
    by simp
next
  fix s :: "('a, 'b) AgentToAgentConversation" and c r s'
  assume J: "count_inv s \<and> threaded f g topic (turns s) \<and> even (length (turns s)) \<and>
             message (last (turns s)) = strip c"
    and A: "azure_turn (function_continue g) c s = (r, s')"
  have r: "r = Inr ()"
    and s': "s' = turns_append
              (ConversationTurn_init (current_turn s + 1) ''azure_ai_agent''
                 (g (strip c) (current_turn s)) None)
              (s\<lparr>current_turn := current_turn s + 1\<rparr>)"
    using A by (simp_all add: azure_turn_def function_continue_def Let_def)
  have t: "threaded f g topic (turns s')"
    unfolding s' using J
    by (auto simp: turns_append_def ConversationTurn_init_def count_inv_def intro!: threaded_snoc)
  have "count_inv s'" "odd (length (turns s'))"
    using J by (simp_all add: s' turns_append_def count_inv_def)
  with t r show "case r of Inl e \<Rightarrow> threaded f g topic (turns s')
      | Inr u \<Rightarrow> count_inv s' \<and> threaded f g topic (turns s') \<and> odd (length (turns s'))"
    by simp
next
  fix s :: "('a, 'b) AgentToAgentConversation"
  assume "count_inv s \<and> threaded f g topic (turns s) \<and> odd (length (turns s))"
  then show "threaded f g topic (turns s)" by simp
qed

lemma function_start_threaded:
  "threaded f g topic (turns (snd (start_conversation (function_continue g) (function_ask f) topic s)))"
  unfolding start_conversation_state
  by (rule function_loop_threaded)
     (simp_all add: seed_state_simps count_inv_def threaded_def ConversationTurn_init_def)

lemma echo_spec_run:
  "spec_start echo_continue (stream_text echo_ask) ''Hello'' ((), ()) = (Inr echo_records, ((), ()))"
  by (simp add: spec_start_def spec_turn_loop.simps stream_text_def echo_ask_def echo_continue_def
        message_fragment_texts_def map_filter_simps MAX_TURNS_def strip_def isspace_def
        echo_records_def upt_rec)


lemma start_conversation_refines:
  shows "fst (start_conversation cont ask topic s) =
     map_sum id (map turn_of_record)
       (fst (spec_start cont (stream_text ask) topic (azure_ai_client s, copilot_client s)))"
  and "(azure_ai_client (snd (start_conversation cont ask topic s)),
        copilot_client (snd (start_conversation cont ask topic s))) =
       snd (spec_start cont (stream_text ask) topic (azure_ai_client s, copilot_client s))"
proof -
  obtain r s' where c: "conversation_loop cont ask (seed_state topic s) = (r, s')"
    by (cases "conversation_loop cont ask (seed_state topic s)")
  obtain R ab where sp: "spec_start cont (stream_text ask) topic (azure_ai_client s, copilot_client s) = (R, ab)"
    by (cases "spec_start cont (stream_text ask) topic (azure_ai_client s, copilot_client s)")
  have rel: "ab = (azure_ai_client s', copilot_client s')"
      "case R of Inl e \<Rightarrow> r = Inl e | Inr T \<Rightarrow> r = Inr () \<and> turns s' = map turn_of_record T"
    using start_refines_spec [of cont ask topic s]
    by (cases R; simp add: c sp result_rel_def)+
  show "fst (start_conversation cont ask topic s) =
     map_sum id (map turn_of_record)
       (fst (spec_start cont (stream_text ask) topic (azure_ai_client s, copilot_client s)))"
    using rel(2) by (cases R) (simp_all add: start_conversation_seed c sp)
  show "(azure_ai_client (snd (start_conversation cont ask topic s)),
        copilot_client (snd (start_conversation cont ask topic s))) =
       snd (spec_start cont (stream_text ask) topic (azure_ai_client s, copilot_client s))"
    using rel(1) by (simp add: start_conversation_state c sp)
qed

lemma echo_as_functions:
  "echo_ask = function_ask (\<lambda>q. ''echo:'' @ q)"
  "echo_continue = function_continue (\<lambda>m n. ''echo:'' @ m)"
  by (simp_all add: fun_eq_iff echo_ask_def function_ask_def echo_continue_def function_continue_def)

lemma echo_code_run:
  "fst (start_conversation echo_continue echo_ask ''Hello'' (conv0 () ())) =
     Inr (map turn_of_record echo_records)"
  using start_conversation_refines(1) [of echo_continue echo_ask "''Hello''" "conv0 () ()"]
  by (simp add: conv0_def echo_spec_run)

lemma echo_code_turns:
  "turns (snd (start_conversation echo_continue echo_ask ''Hello'' (conv0 () ()))) =
     map turn_of_record echo_records"
  using echo_code_run
    start_conversation_returns [of echo_continue echo_ask "''Hello''" "conv0 () ()"
      "map turn_of_record echo_records" "snd (start_conversation echo_continue echo_ask ''Hello'' (conv0 () ()))"]
  by (cases "start_conversation echo_continue echo_ask ''Hello'' (conv0 () ())") simp

lemma echo_messages:
  "map message (map turn_of_record echo_records) =
     map (\<lambda>k. concat (replicate k ''echo:'') @ ''Hello'') [0..<20]"
  by (simp add: echo_records_def turn_of_record_def o_def)

text \<open>
  C3. For all endpoints, stateful and possibly raising, \<^verbatim>\<open>start_conversation\<close> gives what
  the specification's algorithm gives: the same exception, or the same turns, and the same
  endpoint states. For endpoints that are functions, turn 1 is the topic itself, sent by
  \<^verbatim>\<open>azure_ai_agent\<close>, and turn \<open>i + 2\<close> is sent by \<^verbatim>\<open>copilot_studio\<close> for even \<open>i\<close> and by
  \<^verbatim>\<open>azure_ai_agent\<close> for odd \<open>i\<close>, each made from exactly the message of turn \<open>i + 1\<close>. With
  echo endpoints and topic \<^verbatim>\<open>Hello\<close> the twenty messages are \<^verbatim>\<open>Hello\<close>, \<^verbatim>\<open>echo:Hello\<close>,
  \<^verbatim>\<open>echo:echo:Hello\<close> and so on.
\<close>

theorem turn_loop_refines_spec_algorithm:
  "fst (start_conversation cont ask topic s) =
     map_sum id (map turn_of_record)
       (fst (spec_start cont (stream_text ask) topic (azure_ai_client s, copilot_client s))) \<and>
   (azure_ai_client (snd (start_conversation cont ask topic s)),
    copilot_client (snd (start_conversation cont ask topic s))) =
     snd (spec_start cont (stream_text ask) topic (azure_ai_client s, copilot_client s)) \<and>
   turns (snd (start_conversation (function_continue g) (function_ask f) topic s)) \<noteq> [] \<and>
   turns (snd (start_conversation (function_continue g) (function_ask f) topic s)) ! 0 =
     \<lparr>turn_number = 1, sender = ''azure_ai_agent'', message = topic, timestamp = 0\<rparr> \<and>
   (\<forall>i. Suc i < length (turns (snd (start_conversation (function_continue g) (function_ask f) topic s))) \<longrightarrow>
      turns (snd (start_conversation (function_continue g) (function_ask f) topic s)) ! Suc i =
        (if even i
         then \<lparr>turn_number = int i + 2, sender = ''copilot_studio'',
               message = strip (f (message
                 (turns (snd (start_conversation (function_continue g) (function_ask f) topic s)) ! i))),
               timestamp = 0\<rparr>
         else \<lparr>turn_number = int i + 2, sender = ''azure_ai_agent'',
               message = g (message
                 (turns (snd (start_conversation (function_continue g) (function_ask f) topic s)) ! i))
                 (int i + 1),
               timestamp = 0\<rparr>)) \<and>
   map message (turns (snd (start_conversation echo_continue echo_ask ''Hello'' (conv0 () ())))) =
     map (\<lambda>k. concat (replicate k ''echo:'') @ ''Hello'') [0..<20]"
proof (intro conjI)
  show "fst (start_conversation cont ask topic s) =
     map_sum id (map turn_of_record)
       (fst (spec_start cont (stream_text ask) topic (azure_ai_client s, copilot_client s)))"
    by (rule start_conversation_refines(1))
  show "(azure_ai_client (snd (start_conversation cont ask topic s)),
    copilot_client (snd (start_conversation cont ask topic s))) =
     snd (spec_start cont (stream_text ask) topic (azure_ai_client s, copilot_client s))"
    by (rule start_conversation_refines(2))
  show "map message (turns (snd (start_conversation echo_continue echo_ask ''Hello'' (conv0 () ())))) =
     map (\<lambda>k. concat (replicate k ''echo:'') @ ''Hello'') [0..<20]"
    by (simp only: echo_code_turns echo_messages)
qed (use function_start_threaded [of f g topic s] in \<open>simp_all add: threaded_def\<close>)

theorem turn_loop_refines_spec_algorithm_witness:
  "fst (start_conversation echo_continue echo_ask ''Hello'' (conv0 () ())) =
     Inr (map turn_of_record echo_records) \<and>
   length echo_records = 20 \<and>
   Suc 1 < length (turns (snd (start_conversation echo_continue echo_ask ''Hello'' (conv0 () ())))) \<and>
   message (turns (snd (start_conversation echo_continue echo_ask ''Hello'' (conv0 () ()))) ! 0) = ''Hello'' \<and>
   message (turns (snd (start_conversation echo_continue echo_ask ''Hello'' (conv0 () ()))) ! 1) = ''echo:Hello'' \<and>
   message (turns (snd (start_conversation echo_continue echo_ask ''Hello'' (conv0 () ()))) ! Suc 1) =
     ''echo:echo:Hello'' \<and>
   sender (turns (snd (start_conversation echo_continue echo_ask ''Hello'' (conv0 () ()))) ! Suc 1) =
     ''azure_ai_agent''"
  using turn_loop_refines_spec_algorithm [of echo_continue echo_ask "''Hello''" "conv0 () ()"
      "\<lambda>m n. ''echo:'' @ m" "\<lambda>q. ''echo:'' @ q"]
  by (simp add: echo_as_functions [symmetric] echo_code_run echo_code_turns echo_records_def
        turn_of_record_def upt_rec)

end
